theory Spec2Isabelle
  imports Main "HOL-Library.Char_ord" "HOL-Library.List_Lexorder"
    "HOL-Library.Product_Lexorder" "HOL-Library.Option_ord"
begin

section \<open>Exceptions\<close>

text \<open>
  Every exception that \<^verbatim>\<open>release_tools/bump_version.py\<close> can raise is a value.
  \<open>NoMatch\<close> is the script's own exception class; \<open>InvalidVersion\<close> is raised by
  \<^verbatim>\<open>packaging.version.Version\<close>, \<open>RequestError\<close> stands for what \<^verbatim>\<open>requests\<close>
  raises, \<open>ReError\<close> is \<^verbatim>\<open>re.error\<close>. \<open>Unmodelled\<close> is
  not a Python exception: the regular expression model below answers it for
  pattern syntax outside the fragment it covers.
\<close>

datatype error =
    ValueError | KeyError | TypeError | RuntimeError | NoMatch
  | InvalidVersion | FileNotFoundError | IndexError | RequestError | ReError | Unmodelled

text \<open>An exception raised by the first computation skips the second.\<close>

definition bind_result :: "error + 'a \<Rightarrow> ('a \<Rightarrow> error + 'b) \<Rightarrow> error + 'b" where
  "bind_result r f = (case r of Inl e \<Rightarrow> Inl e | Inr x \<Rightarrow> f x)"

section \<open>Decimal numerals: \<^verbatim>\<open>str(int)\<close> and \<^verbatim>\<open>int(str)\<close>\<close>

definition is_digit :: "char \<Rightarrow> bool" where
  "is_digit c = (48 \<le> (of_char c :: nat) \<and> (of_char c :: nat) \<le> 57)"

definition digit_char :: "nat \<Rightarrow> char" where
  "digit_char d = char_of (48 + d)"

function str_nat :: "nat \<Rightarrow> string" where
  "str_nat n = (if n < 10 then [digit_char n]
                else str_nat (n div 10) @ [digit_char (n mod 10)])"
  by pat_completeness auto
termination
  by (relation "measure id") auto

declare str_nat.simps [simp del]

definition nat_of_digits :: "string \<Rightarrow> nat" where
  "nat_of_digits ds = foldl (\<lambda>acc c. 10 * acc + (of_char c - 48)) 0 ds"

definition str_int :: "int \<Rightarrow> string" where
  "str_int i = (if i < 0 then CHR ''-'' # str_nat (nat (- i)) else str_nat (nat i))"

section \<open>\<^verbatim>\<open>packaging.version.Version\<close>\<close>

text \<open>
  The fields of a parsed version. The release components and the numbers of the
  pre, post and dev segments are read from \<^verbatim>\<open>[0-9]+\<close>, hence naturals. The pre
  segment keeps its normalised letter (\<^verbatim>\<open>a\<close>, \<^verbatim>\<open>b\<close> or \<^verbatim>\<open>rc\<close>); a local version is a
  tuple of parts, each a number or a lower-case string.
\<close>

datatype local_part = LNum nat | LStr string

record version =
  epoch :: nat
  release :: "nat list"
  pre :: "(string \<times> nat) option"
  post :: "nat option"
  dev :: "nat option"
  local :: "local_part list option"

definition is_devrelease :: "version \<Rightarrow> bool" where
  "is_devrelease v = (dev v \<noteq> None)"

definition is_prerelease :: "version \<Rightarrow> bool" where
  "is_prerelease v = (dev v \<noteq> None \<or> pre v \<noteq> None)"

subsection \<open>Parsing\<close>

text \<open>
  \<^verbatim>\<open>Version(s)\<close> matches \<^verbatim>\<open>s\<close> against the anchored, case-insensitive PEP 440
  pattern
  \<^verbatim>\<open>\s* v? (N!)? N(.N)* ([-_.]?(a|b|c|rc|alpha|beta|pre|preview)[-_.]?N?)?
     (-N | [-_.]?(post|rev|r)[-_.]?N?)? ([-_.]?dev[-_.]?N?)? (\+local)? \s*\<close>
  and raises \<open>InvalidVersion\<close> when it does not match. The pattern is unambiguous once
  the longest spelling of a letter is preferred, so the parser below reads the
  segments from left to right, each as far as it goes.
\<close>

text \<open>
  A character stands for the code point of its number, so that the characters are
  the code points below 256; \<open>is_space\<close> holds for those that \<^verbatim>\<open>\s\<close> matches.
\<close>

definition is_space :: "char \<Rightarrow> bool" where
  "is_space c = ((of_char c :: nat) \<in> {9, 10, 11, 12, 13, 28, 29, 30, 31, 32, 133, 160})"

definition strip :: "string \<Rightarrow> string" where
  "strip s = rev (dropWhile is_space (rev (dropWhile is_space s)))"

definition lower :: "char \<Rightarrow> char" where
  "lower c = (if 65 \<le> (of_char c :: nat) \<and> (of_char c :: nat) \<le> 90
              then char_of ((of_char c :: nat) + 32) else c)"

definition is_sep :: "char \<Rightarrow> bool" where
  "is_sep c = (c = CHR ''-'' \<or> c = CHR ''_'' \<or> c = CHR ''.'')"

definition skip_sep :: "string \<Rightarrow> string" where
  "skip_sep s = (case s of [] \<Rightarrow> [] | c # t \<Rightarrow> if is_sep c then t else s)"

definition starts_digit :: "string \<Rightarrow> bool" where
  "starts_digit s = (case s of [] \<Rightarrow> False | c # _ \<Rightarrow> is_digit c)"

definition take_number :: "string \<Rightarrow> nat \<times> string" where
  "take_number s = (nat_of_digits (takeWhile is_digit s), dropWhile is_digit s)"

fun match_word :: "(string \<times> 'a) list \<Rightarrow> string \<Rightarrow> ('a \<times> string) option" where
  "match_word [] s = None"
| "match_word ((w, x) # ws) s =
     (if take (length w) s = w then Some (x, drop (length w) s) else match_word ws s)"

definition take_epoch :: "string \<Rightarrow> nat \<times> string" where
  "take_epoch s =
     (if starts_digit s then
        (case dropWhile is_digit s of
           c # t \<Rightarrow> if c = CHR ''!'' then (nat_of_digits (takeWhile is_digit s), t) else (0, s)
         | [] \<Rightarrow> (0, s))
      else (0, s))"

function release_tail :: "string \<Rightarrow> nat list \<times> string" where
  "release_tail s =
     (case s of
        [] \<Rightarrow> ([], s)
      | c # t \<Rightarrow>
          if c = CHR ''.'' \<and> starts_digit t then
            (case release_tail (dropWhile is_digit t) of
               (ns, r) \<Rightarrow> (nat_of_digits (takeWhile is_digit t) # ns, r))
          else ([], s))"
  by pat_completeness auto
termination
  by (relation "measure length") (auto simp: le_imp_less_Suc length_dropWhile_le)

declare release_tail.simps [simp del]

definition take_release :: "string \<Rightarrow> (nat list \<times> string) option" where
  "take_release s =
     (if starts_digit s then
        (case release_tail (dropWhile is_digit s) of
           (ns, r) \<Rightarrow> Some (nat_of_digits (takeWhile is_digit s) # ns, r))
      else None)"

text \<open>The spellings of the pre-release letter with their normal forms, longest first.\<close>

definition pre_letters :: "(string \<times> string) list" where
  "pre_letters =
     [(''preview'', ''rc''), (''alpha'', ''a''), (''beta'', ''b''), (''pre'', ''rc''),
      (''rc'', ''rc''), (''a'', ''a''), (''b'', ''b''), (''c'', ''rc'')]"

definition post_letters :: "(string \<times> unit) list" where
  "post_letters = [(''post'', ()), (''rev'', ()), (''r'', ())]"

definition take_pre :: "string \<Rightarrow> (string \<times> nat) option \<times> string" where
  "take_pre s =
     (case match_word pre_letters (skip_sep s) of
        None \<Rightarrow> (None, s)
      | Some (l, r) \<Rightarrow> (case take_number (skip_sep r) of (n, r') \<Rightarrow> (Some (l, n), r')))"

definition take_post :: "string \<Rightarrow> nat option \<times> string" where
  "take_post s =
     (if take 1 s = ''-'' \<and> starts_digit (drop 1 s) then
        (case take_number (drop 1 s) of (n, r) \<Rightarrow> (Some n, r))
      else
        (case match_word post_letters (skip_sep s) of
           None \<Rightarrow> (None, s)
         | Some (_, r) \<Rightarrow> (case take_number (skip_sep r) of (n, r') \<Rightarrow> (Some n, r'))))"

definition take_dev :: "string \<Rightarrow> nat option \<times> string" where
  "take_dev s =
     (case match_word [(''dev'', ())] (skip_sep s) of
        None \<Rightarrow> (None, s)
      | Some (_, r) \<Rightarrow> (case take_number (skip_sep r) of (n, r') \<Rightarrow> (Some n, r')))"

text \<open>
  The local version is the rest of the string: \<^verbatim>\<open>+\<close> and then non-empty runs of
  \<^verbatim>\<open>[a-z0-9]\<close> separated by single separators. Its parts are split at the
  separators; a part of digits only becomes a number.
\<close>

definition is_local_char :: "char \<Rightarrow> bool" where
  "is_local_char c = (is_digit c \<or> (97 \<le> (of_char c :: nat) \<and> (of_char c :: nat) \<le> 122))"

fun split_sep :: "string \<Rightarrow> string \<Rightarrow> string list" where
  "split_sep acc [] = [rev acc]"
| "split_sep acc (c # cs) =
     (if is_sep c then rev acc # split_sep [] cs else split_sep (c # acc) cs)"

definition local_part_of :: "string \<Rightarrow> local_part" where
  "local_part_of p = (if list_all is_digit p then LNum (nat_of_digits p) else LStr p)"

definition take_local :: "string \<Rightarrow> local_part list option option" where
  "take_local s =
     (case s of
        [] \<Rightarrow> Some None
      | c # t \<Rightarrow>
          if c = CHR ''+'' \<and> list_all (\<lambda>p. p \<noteq> [] \<and> list_all is_local_char p) (split_sep [] t)
          then Some (Some (map local_part_of (split_sep [] t)))
          else None)"

definition Version :: "string \<Rightarrow> error + version" where
  "Version s =
     (let s1 = map lower (strip s);
          s2 = (if take 1 s1 = ''v'' then drop 1 s1 else s1)
      in case take_epoch s2 of (ep, s3) \<Rightarrow>
         (case take_release s3 of
            None \<Rightarrow> Inl InvalidVersion
          | Some (rel, s4) \<Rightarrow>
              (case take_pre s4 of (pr, s5) \<Rightarrow>
               case take_post s5 of (po, s6) \<Rightarrow>
               case take_dev s6 of (de, s7) \<Rightarrow>
               (case take_local s7 of
                  None \<Rightarrow> Inl InvalidVersion
                | Some lo \<Rightarrow>
                    Inr \<lparr>epoch = ep, release = rel, pre = pr, post = po,
                         dev = de, local = lo\<rparr>))))"

subsection \<open>Printing: \<^verbatim>\<open>str(version)\<close>\<close>

fun join :: "string \<Rightarrow> string list \<Rightarrow> string" where
  "join sep [] = []"
| "join sep [x] = x"
| "join sep (x # y # ys) = x @ sep @ join sep (y # ys)"

definition str_local_part :: "local_part \<Rightarrow> string" where
  "str_local_part p = (case p of LNum n \<Rightarrow> str_nat n | LStr s \<Rightarrow> s)"

definition str_version :: "version \<Rightarrow> string" where
  "str_version v =
     (if epoch v \<noteq> 0 then str_nat (epoch v) @ ''!'' else [])
     @ join ''.'' (map str_nat (release v))
     @ (case pre v of None \<Rightarrow> [] | Some (l, n) \<Rightarrow> l @ str_nat n)
     @ (case post v of None \<Rightarrow> [] | Some n \<Rightarrow> ''.post'' @ str_nat n)
     @ (case dev v of None \<Rightarrow> [] | Some n \<Rightarrow> ''.dev'' @ str_nat n)
     @ (case local v of None \<Rightarrow> [] | Some ps \<Rightarrow> ''+'' @ join ''.'' (map str_local_part ps))"

section \<open>\<^verbatim>\<open>get_next_version\<close>\<close>

text \<open>
  \<^verbatim>\<open>major, minor, micro = current_version.release\<close> raises \<open>ValueError\<close> unless the
  release has exactly three components. The three increment branches build the
  new version by formatting a string and parsing it.
\<close>

definition get_next_version :: "version \<Rightarrow> bool \<Rightarrow> bool \<Rightarrow> error + version" where
  "get_next_version current_version increment_major increment_minor =
     (case release current_version of
        [major, minor, micro] \<Rightarrow>
          if increment_major then Version (str_nat (major + 1) @ ''.0.0'')
          else if increment_minor then
            Version (str_nat major @ ''.'' @ str_nat (minor + 1) @ ''.0'')
          else if is_devrelease current_version \<or> is_prerelease current_version then
            Inr current_version
          else Version (str_nat major @ ''.'' @ str_nat minor @ ''.'' @ str_nat (micro + 1))
      | _ \<Rightarrow> Inl ValueError)"

text \<open>The characters of a release segment.\<close>

definition plain :: "char \<Rightarrow> bool" where
  "plain c = (is_digit c \<or> c = CHR ''.'')"

text \<open>The version \<^verbatim>\<open>X.Y.Z\<close> with no epoch and no suffix.\<close>

definition final_release :: "nat \<Rightarrow> nat \<Rightarrow> nat \<Rightarrow> version" where
  "final_release x y z =
     \<lparr>epoch = 0, release = [x, y, z], pre = None, post = None, dev = None, local = None\<rparr>"

section \<open>Ordering of versions\<close>

text \<open>
  Versions are compared, and hashed as dictionary keys, through their comparison key
  \<^verbatim>\<open>Version._key\<close>: the epoch, the release without its trailing zeros, and the
  pre, post, dev and local segments, where an absent segment is an infinity. The
  key is a tuple and tuples compare lexicographically. The encoding below keeps
  that order: in the pre component \<open>(0, _, _)\<close> is \<open>-Infinity\<close>, \<open>(1, l, n)\<close> the
  segment \<open>(l, n)\<close> and \<open>(2, _, _)\<close> is \<open>Infinity\<close>; an absent post or local segment is
  \<open>None\<close>, below every \<open>Some\<close>; in the dev component \<open>(0, n)\<close> is the segment and
  \<open>(1, 0)\<close> is \<open>Infinity\<close>; a local string part \<open>(-Infinity, s)\<close> is \<open>(0, 0, s)\<close> and a
  local number part \<open>(n, "")\<close> is \<open>(1, n, [])\<close>.
\<close>

type_synonym version_key =
  "nat \<times> nat list \<times> (nat \<times> string \<times> nat) \<times> nat option \<times> (nat \<times> nat)
   \<times> (nat \<times> nat \<times> string) list option"

definition local_key :: "local_part \<Rightarrow> nat \<times> nat \<times> string" where
  "local_key p = (case p of LStr s \<Rightarrow> (0, 0, s) | LNum n \<Rightarrow> (1, n, []))"

definition cmpkey :: "version \<Rightarrow> version_key" where
  "cmpkey v =
     (epoch v,
      rev (dropWhile (\<lambda>x. x = 0) (rev (release v))),
      (case pre v of
         None \<Rightarrow> if post v = None \<and> dev v \<noteq> None then (0, [], 0) else (2, [], 0)
       | Some (l, n) \<Rightarrow> (1, l, n)),
      post v,
      (case dev v of None \<Rightarrow> (1, 0) | Some n \<Rightarrow> (0, n)),
      map_option (map local_key) (local v))"

definition version_lt :: "version \<Rightarrow> version \<Rightarrow> bool" where
  "version_lt a b = (cmpkey a < cmpkey b)"

definition version_le :: "version \<Rightarrow> version \<Rightarrow> bool" where
  "version_le a b = (cmpkey a \<le> cmpkey b)"

definition version_gt :: "version \<Rightarrow> version \<Rightarrow> bool" where
  "version_gt a b = (cmpkey a > cmpkey b)"

definition version_eq :: "version \<Rightarrow> version \<Rightarrow> bool" where
  "version_eq a b = (cmpkey a = cmpkey b)"

text \<open>\<^verbatim>\<open>sorted\<close> is a stable sort by \<^verbatim>\<open><\<close>.\<close>

definition py_sorted :: "version list \<Rightarrow> version list" where
  "py_sorted vs = sort_key cmpkey vs"

section \<open>The milestone dictionary\<close>

text \<open>
  A \<^verbatim>\<open>Dict[Version, str]\<close> in insertion order. Keys are equal when their comparison
  keys are; storing under a key equal to one already present keeps the old key
  object and replaces its value.
\<close>

type_synonym milestone_dict = "(version \<times> string) list"

fun dict_set :: "milestone_dict \<Rightarrow> version \<Rightarrow> string \<Rightarrow> milestone_dict" where
  "dict_set [] k v = [(k, v)]"
| "dict_set ((k', v') # d) k v =
     (if version_eq k' k then (k', v) # d else (k', v') # dict_set d k v)"

fun dict_get :: "milestone_dict \<Rightarrow> version \<Rightarrow> error + string" where
  "dict_get [] k = Inl KeyError"
| "dict_get ((k', v') # d) k = (if version_eq k' k then Inr v' else dict_get d k)"

definition dict_keys :: "milestone_dict \<Rightarrow> version list" where
  "dict_keys d = map fst d"

text \<open>The invariant of a dictionary: no two keys are equal.\<close>

definition dict_ok :: "milestone_dict \<Rightarrow> bool" where
  "dict_ok d = distinct (map cmpkey (dict_keys d))"

section \<open>\<^verbatim>\<open>get_milestone_numbers\<close>\<close>

text \<open>
  The response of the GitHub API is an input. A JSON list is taken to hold
  milestone objects with a string \<^verbatim>\<open>title\<close> and an integer \<^verbatim>\<open>number\<close>, as the API
  returns them; any other JSON value raises \<open>TypeError\<close>, and \<open>RequestFailed\<close> is a
  request or a decoding that raised. The dictionary
  comprehension parses each title, so a title that is no version raises
  \<open>InvalidVersion\<close>.
\<close>

record milestone =
  milestone_title :: string
  milestone_number :: int

datatype api_response = JsonList "milestone list" | JsonOther | RequestFailed

fun collect_milestones :: "milestone list \<Rightarrow> milestone_dict \<Rightarrow> error + milestone_dict" where
  "collect_milestones [] d = Inr d"
| "collect_milestones (m # ms) d =
     (case Version (milestone_title m) of
        Inl e \<Rightarrow> Inl e
      | Inr k \<Rightarrow> collect_milestones ms (dict_set d k (str_int (milestone_number m))))"

definition get_milestone_numbers :: "api_response \<Rightarrow> error + milestone_dict" where
  "get_milestone_numbers milestones =
     (case milestones of
        JsonList ms \<Rightarrow> collect_milestones ms []
      | JsonOther \<Rightarrow> Inl TypeError
      | RequestFailed \<Rightarrow> Inl RequestError)"

section \<open>\<^verbatim>\<open>get_next_milestone_version\<close>\<close>

text \<open>The loop over the sorted keys: the first one greater than \<open>version\<close> is returned.\<close>

fun first_later :: "version \<Rightarrow> version list \<Rightarrow> error + version" where
  "first_later version [] = Inl RuntimeError"
| "first_later version (milestone_version # rest) =
     (if version_gt milestone_version version then Inr milestone_version
      else first_later version rest)"

definition get_next_milestone_version :: "version \<Rightarrow> milestone_dict \<Rightarrow> error + version" where
  "get_next_milestone_version version milestone_numbers =
     first_later version (py_sorted (dict_keys milestone_numbers))"

text \<open>
  What the specification asks of the result: a key of the dictionary, greater than
  \<open>version\<close>, and not above any other key greater than \<open>version\<close>.
\<close>

definition is_least_later :: "version \<Rightarrow> milestone_dict \<Rightarrow> version \<Rightarrow> bool" where
  "is_least_later version d r =
     (r \<in> set (dict_keys d) \<and> version_gt r version
      \<and> (\<forall>k \<in> set (dict_keys d). version_gt k version \<longrightarrow> version_le r k))"

text \<open>The milestones \<^verbatim>\<open>{"1.3.0": 1, "2.0.0": 2}\<close> of the specification's example.\<close>

definition example_milestones :: milestone_dict where
  "example_milestones = [(final_release 1 3 0, ''1''), (final_release 2 0 0, ''2'')]"

section \<open>Files and standard output\<close>

text \<open>
  The script reads and writes text files by path and prints to standard output.
  A world holds, for each path that exists, the characters stored in the file, and
  the text printed so far. \<^verbatim>\<open>Path.read_text\<close> of a missing file raises
  \<open>FileNotFoundError\<close>; it opens the file in text mode, so that a carriage return
  followed by a line feed, and a carriage return alone, are read as one line feed.
  \<^verbatim>\<open>Path.write_text\<close> writes each line feed as \<^verbatim>\<open>os.linesep\<close>, which is the line
  feed itself on a POSIX system: the text is stored as it is given. \<^verbatim>\<open>print(s)\<close>
  writes \<open>s\<close> and a newline. A procedure returns its outcome together with the
  world it leaves, also when it raises.
\<close>

record world =
  files :: "string \<Rightarrow> string option"
  stdout :: string

definition NL :: char where
  "NL = CHR 0x0A"

definition CR :: char where
  "CR = CHR 0x0D"

fun universal_newlines :: "string \<Rightarrow> string" where
  "universal_newlines [] = []"
| "universal_newlines [c] = [if c = CR then NL else c]"
| "universal_newlines (c # d # r) =
     (if c = CR \<and> d = NL then NL # universal_newlines r
      else if c = CR then NL # universal_newlines (d # r)
      else c # universal_newlines (d # r))"

definition read_text :: "string \<Rightarrow> world \<Rightarrow> error + string" where
  "read_text path w =
     (case files w path of
        None \<Rightarrow> Inl FileNotFoundError
      | Some c \<Rightarrow> Inr (universal_newlines c))"

definition write_text :: "string \<Rightarrow> string \<Rightarrow> world \<Rightarrow> world" where
  "write_text path content w = w\<lparr>files := (files w)(path \<mapsto> content)\<rparr>"

definition print :: "string \<Rightarrow> world \<Rightarrow> world" where
  "print s w = w\<lparr>stdout := stdout w @ s @ [NL]\<rparr>"

section \<open>\<^verbatim>\<open>patch_changelog\<close>\<close>

text \<open>\<^verbatim>\<open>content.index(sub)\<close>: the first position where \<open>sub\<close> occurs, \<open>None\<close> for \<open>ValueError\<close>.\<close>

definition occurs_at :: "string \<Rightarrow> string \<Rightarrow> nat \<Rightarrow> bool" where
  "occurs_at sub s i = (i \<le> length s \<and> take (length sub) (drop i s) = sub)"

fun str_index :: "string \<Rightarrow> string \<Rightarrow> nat option" where
  "str_index [] sub = (if sub = [] then Some 0 else None)"
| "str_index (c # cs) sub =
     (if take (length sub) (c # cs) = sub then Some 0
      else map_option Suc (str_index cs sub))"

text \<open>\<^verbatim>\<open>str(date.today())\<close> is the ISO form \<^verbatim>\<open>YYYY-MM-DD\<close> of the date, which is an input.\<close>

record date =
  year :: nat
  month :: nat
  day :: nat

definition zero_pad :: "nat \<Rightarrow> string \<Rightarrow> string" where
  "zero_pad n s = replicate (n - length s) CHR ''0'' @ s"

definition str_date :: "date \<Rightarrow> string" where
  "str_date d =
     zero_pad 4 (str_nat (year d)) @ ''-'' @ zero_pad 2 (str_nat (month d)) @ ''-''
     @ zero_pad 2 (str_nat (day d))"

definition before_unreleased :: string where
  "before_unreleased = ''These features will be included in the next release:'' @ [NL, NL]"

text \<open>The text that is put between \<open>before\<close> and \<open>after\<close>.\<close>

definition unreleased_section :: "string \<Rightarrow> string" where
  "unreleased_section title =
     ''Added'' @ [NL] @ ''-----'' @ [NL, NL]
     @ ''Fixed'' @ [NL] @ ''-----'' @ [NL, NL, NL]
     @ title @ [NL]
     @ replicate (length title) CHR ''='' @ [NL, NL]"

definition changelog_title :: "version \<Rightarrow> date \<Rightarrow> string" where
  "changelog_title next_version today = str_version next_version @ ''_ - '' @ str_date today"

definition patch_changelog ::
  "version \<Rightarrow> bool \<Rightarrow> date \<Rightarrow> world \<Rightarrow> (error + unit) \<times> world" where
  "patch_changelog next_version dry_run today w =
     (case read_text ''CHANGES.rst'' w of
        Inl e \<Rightarrow> (Inl e, w)
      | Inr content \<Rightarrow>
          (case str_index content before_unreleased of
             None \<Rightarrow> (Inl ValueError, w)
           | Some i \<Rightarrow>
               (let insert_point = i + length before_unreleased;
                    before = take insert_point content;
                    after = drop insert_point content;
                    title = changelog_title next_version today;
                    new_content = before @ unreleased_section title @ after
                in if dry_run then
                     (Inr (), print (take 200 new_content)
                                (print ''######## CHANGES.rst ########'' w))
                   else (Inr (), write_text ''CHANGES.rst'' new_content w))))"

text \<open>A string contains another one when that one occurs somewhere in it.\<close>

definition contains :: "string \<Rightarrow> string \<Rightarrow> bool" where
  "contains s sub = (\<exists>i \<le> length s. occurs_at sub s i)"

text \<open>A world whose only file is \<^verbatim>\<open>CHANGES.rst\<close>, and a date, for examples.\<close>

definition example_world :: "string \<Rightarrow> world" where
  "example_world c = \<lparr>files = [''CHANGES.rst'' \<mapsto> c], stdout = []\<rparr>"

definition example_date :: date where
  "example_date = \<lparr>year = 2021, month = 3, day = 7\<rparr>"

text \<open>A changelog stored with carriage returns before its line feeds.\<close>

definition crlf_changelog :: string where
  "crlf_changelog =
     ''Unreleased_'' @ [CR, NL]
     @ ''These features will be included in the next release:'' @ [CR, NL, CR, NL]
     @ ''1.2.3_ - 2021-02-01'' @ [CR, NL] @ ''==================='' @ [CR, NL, CR, NL]
     @ ''Fixed'' @ [CR, NL] @ ''-----'' @ [CR, NL]
     @ ''- Something was fixed.'' @ [CR, NL]"

section \<open>Regular expressions\<close>

text \<open>
  The script builds its patterns at run time and hands them to \<^verbatim>\<open>re.search\<close>. The
  model covers the part of the pattern language that the pattern table and the
  escaped version numbers use: literal characters, \<^verbatim>\<open>.\<close>, escapes of punctuation, the
  classes \<^verbatim>\<open>\d \w \s \D \W \S\<close>, character sets with single characters, ranges and
  class escapes, the anchors \<^verbatim>\<open>^\<close> and \<^verbatim>\<open>$\<close> in multi-line mode, capturing groups, and
  the greedy quantifiers \<^verbatim>\<open>* + ?\<close> on a single-character item. A pattern that \<^verbatim>\<open>re\<close>
  rejects with an unbalanced parenthesis, an unterminated set, a bad range, a
  trailing backslash or a quantifier with nothing before it is \<open>ReError\<close>; anything
  else outside the fragment (alternation, braces, quantified groups, lazy
  quantifiers, \<^verbatim>\<open>(?\<close>\ldots\<^verbatim>\<open>)\<close>, escapes of letters and digits, unusual sets) is
  \<open>Unmodelled\<close>.
\<close>

definition BSL :: char where
  "BSL = CHR 0x5C"

definition DQ :: char where
  "DQ = CHR 0x22"

definition SQ :: char where
  "SQ = CHR 0x27"

datatype class_item =
    CChar char | CRange char char
  | CDigit | CWord | CSpace | CNotDigit | CNotWord | CNotSpace

datatype atom = Lit char | AnyChar | Class bool "class_item list"

datatype node =
    Atom atom | Star atom | Plus atom | Opt atom | Bol | Eol | Group nat "node list"

definition is_ascii_alnum :: "char \<Rightarrow> bool" where
  "is_ascii_alnum c =
     (is_digit c \<or> (65 \<le> (of_char c :: nat) \<and> (of_char c :: nat) \<le> 90)
      \<or> (97 \<le> (of_char c :: nat) \<and> (of_char c :: nat) \<le> 122))"

text \<open>The code points below 256 that \<^verbatim>\<open>\w\<close> matches.\<close>

definition is_word :: "char \<Rightarrow> bool" where
  "is_word c =
     (is_ascii_alnum c \<or> c = CHR ''_''
      \<or> (of_char c :: nat) \<in> {170, 178, 179, 181, 185, 186, 188, 189, 190}
      \<or> (192 \<le> (of_char c :: nat) \<and> (of_char c :: nat) \<le> 214)
      \<or> (216 \<le> (of_char c :: nat) \<and> (of_char c :: nat) \<le> 246)
      \<or> 248 \<le> (of_char c :: nat))"

fun item_ok :: "class_item \<Rightarrow> char \<Rightarrow> bool" where
  "item_ok (CChar x) c = (c = x)"
| "item_ok (CRange lo hi) c =
     ((of_char lo :: nat) \<le> of_char c \<and> (of_char c :: nat) \<le> of_char hi)"
| "item_ok CDigit c = is_digit c"
| "item_ok CWord c = is_word c"
| "item_ok CSpace c = is_space c"
| "item_ok CNotDigit c = (\<not> is_digit c)"
| "item_ok CNotWord c = (\<not> is_word c)"
| "item_ok CNotSpace c = (\<not> is_space c)"

fun atom_ok :: "atom \<Rightarrow> char \<Rightarrow> bool" where
  "atom_ok (Lit x) c = (c = x)"
| "atom_ok AnyChar c = (c \<noteq> NL)"
| "atom_ok (Class negated items) c = (negated \<noteq> list_ex (\<lambda>i. item_ok i c) items)"

subsection \<open>Reading a pattern\<close>

datatype token = TAtom atom | TStar | TPlus | TQuest | TOpen | TClose | TBol | TEol

datatype lex_mode = Top | InClass bool "class_item list"

definition class_escape :: "char \<Rightarrow> class_item option" where
  "class_escape e =
     (if e = CHR ''d'' then Some CDigit else if e = CHR ''D'' then Some CNotDigit
      else if e = CHR ''w'' then Some CWord else if e = CHR ''W'' then Some CNotWord
      else if e = CHR ''s'' then Some CSpace else if e = CHR ''S'' then Some CNotSpace
      else None)"

definition escape_atom :: "char \<Rightarrow> error + atom" where
  "escape_atom e =
     (case class_escape e of
        Some i \<Rightarrow> Inr (Class False [i])
      | None \<Rightarrow> if is_ascii_alnum e then Inl Unmodelled else Inr (Lit e))"

definition cons_tok :: "token \<Rightarrow> error + token list \<Rightarrow> error + token list" where
  "cons_tok t r = (case r of Inl e \<Rightarrow> Inl e | Inr ts \<Rightarrow> Inr (t # ts))"

definition range_end_ok :: "char \<Rightarrow> bool" where
  "range_end_ok h = (h \<noteq> CHR '']'' \<and> h \<noteq> BSL \<and> h \<noteq> CHR ''['')"

fun lex :: "lex_mode \<Rightarrow> string \<Rightarrow> error + token list" where
  "lex Top [] = Inr []"
| "lex (InClass negated items) [] = Inl ReError"
| "lex Top (c # cs) =
     (if c = BSL then
        (case cs of
           [] \<Rightarrow> Inl ReError
         | e # r \<Rightarrow>
             (case escape_atom e of
                Inl err \<Rightarrow> Inl err
              | Inr a \<Rightarrow> cons_tok (TAtom a) (lex Top r)))
      else if c = CHR ''['' then
        (case cs of
           [] \<Rightarrow> Inl ReError
         | d # r \<Rightarrow> if d = CHR ''^'' then lex (InClass True []) r
                    else lex (InClass False []) cs)
      else if c = CHR ''('' then
        (if take 1 cs = ''?'' then Inl Unmodelled else cons_tok TOpen (lex Top cs))
      else if c = CHR '')'' then cons_tok TClose (lex Top cs)
      else if c = CHR ''*'' then cons_tok TStar (lex Top cs)
      else if c = CHR ''+'' then cons_tok TPlus (lex Top cs)
      else if c = CHR ''?'' then cons_tok TQuest (lex Top cs)
      else if c = CHR ''^'' then cons_tok TBol (lex Top cs)
      else if c = CHR ''$'' then cons_tok TEol (lex Top cs)
      else if c = CHR ''.'' then cons_tok (TAtom AnyChar) (lex Top cs)
      else if c = CHR ''|'' \<or> c = CHR ''{'' then Inl Unmodelled
      else cons_tok (TAtom (Lit c)) (lex Top cs))"
| "lex (InClass negated items) (c # cs) =
     (if c = CHR '']'' then
        (if items = [] then Inl Unmodelled
         else cons_tok (TAtom (Class negated (rev items))) (lex Top cs))
      else if c = CHR ''-'' then Inl Unmodelled
      else if c = BSL then
        (case cs of
           [] \<Rightarrow> Inl ReError
         | e # r \<Rightarrow>
             (case class_escape e of
                Some i \<Rightarrow>
                  (if take 1 r = ''-'' then Inl Unmodelled
                   else lex (InClass negated (i # items)) r)
              | None \<Rightarrow>
                  if is_ascii_alnum e then Inl Unmodelled
                  else
                    (case r of
                       [] \<Rightarrow> Inl ReError
                     | d # r2 \<Rightarrow>
                         if d = CHR ''-'' then
                           (case r2 of
                              [] \<Rightarrow> Inl ReError
                            | h # r3 \<Rightarrow>
                                if \<not> range_end_ok h then Inl Unmodelled
                                else if (of_char e :: nat) \<le> of_char h
                                then lex (InClass negated (CRange e h # items)) r3
                                else Inl ReError)
                         else lex (InClass negated (CChar e # items)) r)))
      else
        (case cs of
           [] \<Rightarrow> Inl ReError
         | d # r2 \<Rightarrow>
             if d = CHR ''-'' then
               (case r2 of
                  [] \<Rightarrow> Inl ReError
                | h # r3 \<Rightarrow>
                    if \<not> range_end_ok h then Inl Unmodelled
                    else if (of_char c :: nat) \<le> of_char h
                    then lex (InClass negated (CRange c h # items)) r3
                    else Inl ReError)
             else lex (InClass negated (CChar c # items)) cs))"

definition quantified :: "token \<Rightarrow> atom \<Rightarrow> node option" where
  "quantified q a =
     (case q of TStar \<Rightarrow> Some (Star a) | TPlus \<Rightarrow> Some (Plus a) | TQuest \<Rightarrow> Some (Opt a)
              | _ \<Rightarrow> None)"

definition is_quantifier :: "token \<Rightarrow> bool" where
  "is_quantifier q = (q = TStar \<or> q = TPlus \<or> q = TQuest)"

text \<open>
  The nodes of the sequence being read are kept in reverse; an open parenthesis
  pushes the group's number and the sequence around it. Groups are numbered in the
  order of their open parentheses, from 1.
\<close>

fun build ::
  "token list \<Rightarrow> node list \<Rightarrow> (nat \<times> node list) list \<Rightarrow> nat \<Rightarrow> error + node list \<times> nat"
where
  "build [] cur [] n = Inr (rev cur, n)"
| "build [] cur (f # fs) n = Inl ReError"
| "build (TAtom a # ts) cur st n =
     (case ts of
        [] \<Rightarrow> build ts (Atom a # cur) st n
      | q # ts' \<Rightarrow>
          (case quantified q a of
             None \<Rightarrow> build ts (Atom a # cur) st n
           | Some nd \<Rightarrow>
               (case ts' of
                  [] \<Rightarrow> build ts' (nd # cur) st n
                | q2 # _ \<Rightarrow> if is_quantifier q2 then Inl Unmodelled
                            else build ts' (nd # cur) st n)))"
| "build (TOpen # ts) cur st n = build ts [] ((Suc n, cur) # st) (Suc n)"
| "build (TClose # ts) cur st n =
     (case st of
        [] \<Rightarrow> Inl ReError
      | (i, outer) # st' \<Rightarrow> build ts (Group i (rev cur) # outer) st' n)"
| "build (TBol # ts) cur st n = build ts (Bol # cur) st n"
| "build (TEol # ts) cur st n = build ts (Eol # cur) st n"
| "build (q # ts) cur st n = (if cur = [] then Inl ReError else Inl Unmodelled)"

record regex =
  nodes :: "node list"
  groups :: nat

definition re_compile :: "string \<Rightarrow> error + regex" where
  "re_compile pattern =
     (case lex Top pattern of
        Inl e \<Rightarrow> Inl e
      | Inr ts \<Rightarrow>
          (case build ts [] [] 0 of
             Inl e \<Rightarrow> Inl e
           | Inr (ns, n) \<Rightarrow> Inr \<lparr>nodes = ns, groups = n\<rparr>))"

subsection \<open>Matching\<close>

text \<open>
  A matching state is a position in the subject and the spans of the groups
  matched so far. Matching a node from a state gives the states after it in the
  order in which the backtracking matcher tries them: a greedy quantifier tries
  the longest run first. The first state of the list is the match that is found.
\<close>

type_synonym spans = "nat \<Rightarrow> (nat \<times> nat) option"

definition run :: "atom \<Rightarrow> string \<Rightarrow> nat \<Rightarrow> nat" where
  "run a s p = length (takeWhile (atom_ok a) (drop p s))"

fun m_node :: "string \<Rightarrow> node \<Rightarrow> nat \<times> spans \<Rightarrow> (nat \<times> spans) list"
and m_seq :: "string \<Rightarrow> node list \<Rightarrow> nat \<times> spans \<Rightarrow> (nat \<times> spans) list"
where
  "m_node s (Atom a) (p, g) = (if p < length s \<and> atom_ok a (s ! p) then [(Suc p, g)] else [])"
| "m_node s (Star a) (p, g) = map (\<lambda>k. (p + k, g)) (rev [0..<Suc (run a s p)])"
| "m_node s (Plus a) (p, g) = map (\<lambda>k. (p + k, g)) (rev [1..<Suc (run a s p)])"
| "m_node s (Opt a) (p, g) =
     (if p < length s \<and> atom_ok a (s ! p) then [(Suc p, g), (p, g)] else [(p, g)])"
| "m_node s Bol (p, g) = (if p = 0 \<or> s ! (p - 1) = NL then [(p, g)] else [])"
| "m_node s Eol (p, g) = (if p = length s \<or> s ! p = NL then [(p, g)] else [])"
| "m_node s (Group i ns) (p, g) =
     map (\<lambda>(q, g'). (q, g'(i \<mapsto> (p, q)))) (m_seq s ns (p, g))"
| "m_seq s [] st = [st]"
| "m_seq s (n # ns) st = concat (map (m_seq s ns) (m_node s n st))"

text \<open>The numbers of the groups of a node and of a sequence.\<close>

fun node_ids :: "node \<Rightarrow> nat set"
and seq_ids :: "node list \<Rightarrow> nat set"
where
  "node_ids (Group i ns) = insert i (seq_ids ns)"
| "node_ids (Atom a) = {}"
| "node_ids (Star a) = {}"
| "node_ids (Plus a) = {}"
| "node_ids (Opt a) = {}"
| "node_ids Bol = {}"
| "node_ids Eol = {}"
| "seq_ids [] = {}"
| "seq_ids (n # ns) = node_ids n \<union> seq_ids ns"

definition stack_ids :: "(nat \<times> node list) list \<Rightarrow> nat set" where
  "stack_ids st = (\<Union>f \<in> set st. insert (fst f) (seq_ids (snd f)))"

text \<open>
  A state of a match that started at \<open>b\<close>: the position and the spans lie between
  \<open>b\<close> and the end of the subject, and no span ends after the position.
\<close>

definition state_ok :: "string \<Rightarrow> nat \<Rightarrow> nat \<times> spans \<Rightarrow> bool" where
  "state_ok s b st =
     (b \<le> fst st \<and> fst st \<le> length s
      \<and> (\<forall>i x y. snd st i = Some (x, y) \<longrightarrow> b \<le> x \<and> x \<le> y \<and> y \<le> fst st))"

record match =
  m_start :: nat
  m_end :: nat
  m_spans :: spans
  m_groups :: nat
  m_string :: string

text \<open>\<^verbatim>\<open>search\<close> tries the start positions from left to right.\<close>

fun search_from :: "regex \<Rightarrow> string \<Rightarrow> nat list \<Rightarrow> match option" where
  "search_from r s [] = None"
| "search_from r s (i # rest) =
     (case m_seq s (nodes r) (i, Map.empty) of
        [] \<Rightarrow> search_from r s rest
      | (e, g) # _ \<Rightarrow>
          Some \<lparr>m_start = i, m_end = e, m_spans = g, m_groups = groups r, m_string = s\<rparr>)"

definition regex_search :: "regex \<Rightarrow> string \<Rightarrow> match option" where
  "regex_search r s = search_from r s [0..<Suc (length s)]"

text \<open>\<^verbatim>\<open>re.search(pattern, string, flags=re.MULTILINE)\<close>.\<close>

definition re_search :: "string \<Rightarrow> string \<Rightarrow> error + match option" where
  "re_search pattern s =
     (case re_compile pattern of Inl e \<Rightarrow> Inl e | Inr r \<Rightarrow> Inr (regex_search r s))"

text \<open>
  \<^verbatim>\<open>match.span(i)\<close>: \<open>IndexError\<close> when the pattern has no group \<open>i\<close>, and \<open>(-1, -1)\<close>
  for a group that took no part in the match. \<^verbatim>\<open>match.span()\<close> is the whole match.
\<close>

definition span :: "match \<Rightarrow> nat \<Rightarrow> error + int \<times> int" where
  "span m i =
     (if i = 0 then Inr (int (m_start m), int (m_end m))
      else if m_groups m < i then Inl IndexError
      else (case m_spans m i of
              None \<Rightarrow> Inr (- 1, - 1)
            | Some (a, b) \<Rightarrow> Inr (int a, int b)))"

text \<open>\<^verbatim>\<open>match.group(i)\<close> for a group that took part in the match.\<close>

definition group_text :: "match \<Rightarrow> nat \<Rightarrow> string" where
  "group_text m i =
     (case m_spans m i of
        None \<Rightarrow> []
      | Some (a, b) \<Rightarrow> take (b - a) (drop a (m_string m)))"

text \<open>\<^verbatim>\<open>re.escape\<close> puts a backslash before each special character.\<close>

definition re_special :: "char \<Rightarrow> bool" where
  "re_special c =
     (c \<in> set ''()[]{}?*+-|^$.&~# '' \<or> c = BSL
      \<or> (of_char c :: nat) \<in> {9, 10, 11, 12, 13})"

definition re_escape :: "string \<Rightarrow> string" where
  "re_escape s = concat (map (\<lambda>c. if re_special c then [BSL, c] else [c]) s)"

section \<open>\<^verbatim>\<open>replace_span\<close>\<close>

text \<open>
  Python slices with integer bounds: a negative bound counts from the end, and a
  bound outside the string is clamped.
\<close>

definition slice_to :: "string \<Rightarrow> int \<Rightarrow> string" where
  "slice_to s i = (if i < 0 then take (nat (int (length s) + i)) s else take (nat i) s)"

definition slice_from :: "string \<Rightarrow> int \<Rightarrow> string" where
  "slice_from s i = (if i < 0 then drop (nat (int (length s) + i)) s else drop (nat i) s)"

definition replace_span :: "int \<times> int \<Rightarrow> string \<Rightarrow> string \<Rightarrow> string" where
  "replace_span sp replacement content =
     (case sp of (start, end) \<Rightarrow>
        (let before = slice_to content start;
             after = slice_from content end
         in before @ replacement @ after))"

section \<open>The pattern table\<close>

definition VERSION_PY_PATH :: string where
  "VERSION_PY_PATH = ''src/darker/version.py''"

text \<open>
  \<^verbatim>\<open>PATTERNS\<close> maps each path to a set of templates. The order in which a set is
  iterated is not fixed by the language, so the procedures below take the table
  as a list of paths with their templates in the order of iteration; \<open>PATTERNS\<close> is
  the table in the order in which the source writes it.
\<close>

type_synonym pattern_table = "(string \<times> string list) list"

definition PATTERNS :: pattern_table where
  "PATTERNS =
     [(VERSION_PY_PATH,
       [''^__version__ *= *'' @ [BSL, DQ] @ ''{old_version->new_version}'' @ [BSL, DQ]]),
      (''action.yml'',
       [''^    description: '' @ [BSL, SQ] @ ''Python Version specifier '' @ [BSL]
          @ ''(PEP440'' @ [BSL] @ '') - e'' @ [BSL] @ ''.g'' @ [BSL] @ ''. '' @ [DQ]
          @ ''{old_version->new_version}'' @ [DQ],
        ''^    default: '' @ [DQ] @ ''{old_version->new_version}'' @ [DQ],
        ''^      uses: akaihola/darker/.github/actions/commit-range@''
          @ ''{old_version->new_version}'']),
      (''README.rst'',
       [''^           rev: {old_version->new_version}'',
        ''^       rev: {old_version->new_version}'',
        ''^         - uses: akaihola/darker@'' @ ''{old_version->new_version}'',
        ''^             version: '' @ [DQ] @ ''{old_version->new_version}'' @ [DQ],
        ''label=release%20{new_version->next_version}'',
        ''^'' @ [BSL] @ ''.'' @ [BSL] @ ''. '' @ [BSL] @ ''|next-milestone'' @ [BSL]
          @ ''| image:: https://img'' @ [BSL] @ ''.shields'' @ [BSL]
          @ ''.io/github/milestones/progress/akaihola/darker/''
          @ ''{new_milestone->next_milestone}'',
        ''^'' @ [BSL] @ ''.'' @ [BSL] @ ''. _next-milestone: https://github'' @ [BSL]
          @ ''.com/akaihola/darker/milestone/'' @ ''{new_milestone->next_milestone}'']),
      (''.github/ISSUE_TEMPLATE/bug_report.md'',
       [''^ - Darker version '' @ [BSL] @ ''[e'' @ [BSL] @ ''.g'' @ [BSL]
          @ ''. {old_version->new_version}'' @ [BSL] @ '']''])]"

text \<open>
  The pattern of \<^verbatim>\<open>CURRENT_VERSION_RE\<close>: the template of \<^verbatim>\<open>version.py\<close> with
  \<^verbatim>\<open>([\d\.a-z]+)\<close> formatted into its placeholder; and the pattern of \<^verbatim>\<open>CAPTURE_RE\<close>.
\<close>

definition CURRENT_VERSION_RE :: string where
  "CURRENT_VERSION_RE =
     ''^__version__ *= *'' @ [BSL, DQ] @ ''(['' @ [BSL] @ ''d'' @ [BSL] @ ''.a-z]+)''
     @ [BSL, DQ]"

definition CAPTURE_RE :: string where
  "CAPTURE_RE = [BSL] @ ''{('' @ [BSL] @ ''w+)->('' @ [BSL] @ ''w+)'' @ [BSL] @ ''}''"

section \<open>\<^verbatim>\<open>bump_version\<close>\<close>

text \<open>\<^verbatim>\<open>PatternDict\<close> and \<^verbatim>\<open>ReplacementDict\<close> are dictionaries with string keys.\<close>

type_synonym str_dict = "(string \<times> string) list"

definition lookup :: "str_dict \<Rightarrow> string \<Rightarrow> error + string" where
  "lookup d k = (case map_of d k of None \<Rightarrow> Inl KeyError | Some v \<Rightarrow> Inr v)"

text \<open>
  The body of the loop over the templates of a file, in two steps: the pattern and
  the replacement that a template stands for, and the substitution in the content.
\<close>

definition resolve_template :: "str_dict \<Rightarrow> str_dict \<Rightarrow> string \<Rightarrow> error + string \<times> string" where
  "resolve_template patterns replacements pattern_template =
     (case re_search CAPTURE_RE pattern_template of
        Inl e \<Rightarrow> Inl e
      | Inr None \<Rightarrow> Inl NoMatch
      | Inr (Some template_match) \<Rightarrow>
          (case lookup patterns (group_text template_match 1) of
             Inl e \<Rightarrow> Inl e
           | Inr current_pattern \<Rightarrow>
               (case lookup replacements (group_text template_match 2) of
                  Inl e \<Rightarrow> Inl e
                | Inr replacement \<Rightarrow>
                    Inr (replace_span
                           (int (m_start template_match), int (m_end template_match))
                           (''('' @ current_pattern @ '')'') pattern_template,
                         replacement))))"

definition apply_template :: "str_dict \<Rightarrow> str_dict \<Rightarrow> string \<Rightarrow> string \<Rightarrow> error + string" where
  "apply_template patterns replacements pattern_template content =
     (case resolve_template patterns replacements pattern_template of
        Inl e \<Rightarrow> Inl e
      | Inr (pattern, replacement) \<Rightarrow>
          (case re_search pattern content of
             Inl e \<Rightarrow> Inl e
           | Inr None \<Rightarrow> Inl NoMatch
           | Inr (Some m) \<Rightarrow>
               (case span m 1 of
                  Inl e \<Rightarrow> Inl e
                | Inr sp \<Rightarrow> Inr (replace_span sp replacement content))))"

fun apply_templates :: "str_dict \<Rightarrow> str_dict \<Rightarrow> string list \<Rightarrow> string \<Rightarrow> error + string" where
  "apply_templates patterns replacements [] content = Inr content"
| "apply_templates patterns replacements (pattern_template # rest) content =
     (case apply_template patterns replacements pattern_template content of
        Inl e \<Rightarrow> Inl e
      | Inr content' \<Rightarrow> apply_templates patterns replacements rest content')"

definition file_banner :: "string \<Rightarrow> string" where
  "file_banner path_str = [NL] @ ''######## '' @ path_str @ '' ########'' @ [NL]"

text \<open>The loop over the files of the table.\<close>

fun rewrite_files ::
  "str_dict \<Rightarrow> str_dict \<Rightarrow> pattern_table \<Rightarrow> bool \<Rightarrow> world \<Rightarrow> (error + unit) \<times> world" where
  "rewrite_files patterns replacements [] dry_run w = (Inr (), w)"
| "rewrite_files patterns replacements ((path_str, pattern_templates) # rest) dry_run w =
     (case read_text path_str w of
        Inl e \<Rightarrow> (Inl e, w)
      | Inr content \<Rightarrow>
          (case apply_templates patterns replacements pattern_templates content of
             Inl e \<Rightarrow> (Inl e, w)
           | Inr content' \<Rightarrow>
               rewrite_files patterns replacements rest dry_run
                 (if dry_run then print content' (print (file_banner path_str) w)
                  else write_text path_str content' w)))"

definition get_current_version :: "world \<Rightarrow> error + version" where
  "get_current_version w =
     (case read_text VERSION_PY_PATH w of
        Inl e \<Rightarrow> Inl e
      | Inr version_py \<Rightarrow>
          (case re_search CURRENT_VERSION_RE version_py of
             Inl e \<Rightarrow> Inl e
           | Inr None \<Rightarrow> Inl NoMatch
           | Inr (Some m) \<Rightarrow> Version (group_text m 1)))"

definition get_replacements ::
  "bool \<Rightarrow> bool \<Rightarrow> api_response \<Rightarrow> world \<Rightarrow> error + str_dict \<times> str_dict \<times> version" where
  "get_replacements increment_major increment_minor api w =
     (case get_current_version w of
        Inl e \<Rightarrow> Inl e
      | Inr old_version \<Rightarrow>
     (case get_next_version old_version increment_major increment_minor of
        Inl e \<Rightarrow> Inl e
      | Inr new_version \<Rightarrow>
     (case get_milestone_numbers api of
        Inl e \<Rightarrow> Inl e
      | Inr milestone_numbers \<Rightarrow>
     (case get_next_milestone_version new_version milestone_numbers of
        Inl e \<Rightarrow> Inl e
      | Inr next_version \<Rightarrow>
     (case dict_get milestone_numbers new_version of
        Inl e \<Rightarrow> Inl e
      | Inr new_milestone \<Rightarrow>
     (case dict_get milestone_numbers next_version of
        Inl e \<Rightarrow> Inl e
      | Inr next_milestone \<Rightarrow>
          Inr ([(''old_version'', re_escape (str_version old_version)),
                (''new_version'', re_escape (str_version new_version)),
                (''new_milestone'', new_milestone)],
               [(''new_version'', str_version new_version),
                (''next_version'', str_version next_version),
                (''next_milestone'', next_milestone)],
               new_version)))))))"

definition bump_version ::
  "bool \<Rightarrow> bool \<Rightarrow> bool \<Rightarrow> pattern_table \<Rightarrow> api_response \<Rightarrow> date \<Rightarrow> world
   \<Rightarrow> (error + unit) \<times> world" where
  "bump_version dry_run increment_major increment_minor table api today w =
     (case get_replacements increment_major increment_minor api w of
        Inl e \<Rightarrow> (Inl e, w)
      | Inr (patterns, replacements, new_version) \<Rightarrow>
          (case rewrite_files patterns replacements table dry_run w of
             (Inl e, w') \<Rightarrow> (Inl e, w')
           | (Inr u, w') \<Rightarrow> patch_changelog new_version dry_run today w'))"

text \<open>
  What a dry run prints for one entry of the table: the banner and the content
  after all substitutions.
\<close>

definition dry_run_report :: "str_dict \<Rightarrow> str_dict \<Rightarrow> world \<Rightarrow> string \<times> string list \<Rightarrow> string" where
  "dry_run_report patterns replacements w entry =
     (case entry of (path_str, pattern_templates) \<Rightarrow>
        (case read_text path_str w of
           Inl e \<Rightarrow> []
         | Inr content \<Rightarrow>
             (case apply_templates patterns replacements pattern_templates content of
                Inl e \<Rightarrow> []
              | Inr content' \<Rightarrow> file_banner path_str @ [NL] @ content' @ [NL])))"

text \<open>A small repository at version \<^verbatim>\<open>1.2.3\<close> and a table with its version file, for examples.\<close>

definition example_repo :: world where
  "example_repo =
     \<lparr>files = [VERSION_PY_PATH \<mapsto> ''__version__ = '' @ [DQ] @ ''1.2.3'' @ [DQ, NL],
               ''CHANGES.rst'' \<mapsto> ''Unreleased_'' @ [NL] @ before_unreleased],
      stdout = []\<rparr>"

definition example_table :: pattern_table where
  "example_table = [hd PATTERNS]"

definition example_api :: api_response where
  "example_api =
     JsonList [\<lparr>milestone_title = ''1.3.0'', milestone_number = 14\<rparr>,
               \<lparr>milestone_title = ''1.4.0'', milestone_number = 15\<rparr>]"

text \<open>Responses with one milestone, before and after the version \<^verbatim>\<open>1.3.0\<close>.\<close>

definition old_milestones :: api_response where
  "old_milestones = JsonList [\<lparr>milestone_title = ''1.2.0'', milestone_number = 13\<rparr>]"

definition later_milestones :: api_response where
  "later_milestones = JsonList [\<lparr>milestone_title = ''1.4.0'', milestone_number = 15\<rparr>]"




text \<open>
  A repository at version \<^verbatim>\<open>1.2.3\<close> with a version file, a \<^verbatim>\<open>README.rst\<close> and a changelog,
  and a table with one template for the version file and two for \<^verbatim>\<open>README.rst\<close>.
\<close>

definition readme_repo :: world where
  "readme_repo =
     \<lparr>files = [VERSION_PY_PATH \<mapsto> ''__version__ = '' @ [DQ] @ ''1.2.3'' @ [DQ, NL],
               ''README.rst'' \<mapsto>
                 ''       rev: 1.2.3'' @ [NL] @ ''label=release%201.3.0'' @ [NL],
               ''CHANGES.rst'' \<mapsto> ''Unreleased_'' @ [NL] @ before_unreleased],
      stdout = []\<rparr>"

definition readme_table :: pattern_table where
  "readme_table =
     [(VERSION_PY_PATH,
       [''^__version__ *= *'' @ [BSL, DQ] @ ''{old_version->new_version}'' @ [BSL, DQ]]),
      (''README.rst'',
       [''^       rev: {old_version->new_version}'',
        ''label=release%20{new_version->next_version}''])]"

section \<open>Properties of decimal numerals and of version parsing\<close>

lemma is_digit_digit_char: "d < 10 \<Longrightarrow> is_digit (digit_char d)"
  by (simp add: is_digit_def digit_char_def)

lemma digit_val_digit_char: "d < 10 \<Longrightarrow> (of_char (digit_char d) :: nat) - 48 = d"
  by (simp add: digit_char_def)

lemma str_nat_digits: "list_all is_digit (str_nat n)"
proof (induction n rule: str_nat.induct)
  case (1 n)
  show ?case
  proof (cases "n < 10")
    case True
    then show ?thesis by (simp add: str_nat.simps [of n] is_digit_digit_char)
  next
    case False
    with 1 show ?thesis by (simp add: str_nat.simps [of n] is_digit_digit_char)
  qed
qed

lemma str_nat_nonempty: "str_nat n \<noteq> []"
  by (subst str_nat.simps) simp

lemma nat_of_digits_snoc: "nat_of_digits (ds @ [c]) = 10 * nat_of_digits ds + (of_char c - 48)"
  by (simp add: nat_of_digits_def)

lemma nat_of_digits_str_nat: "nat_of_digits (str_nat n) = n"
proof (induction n rule: str_nat.induct)
  case (1 n)
  show ?case
  proof (cases "n < 10")
    case True
    then show ?thesis
      by (simp add: str_nat.simps [of n] nat_of_digits_def digit_val_digit_char)
  next
    case False
    with 1 show ?thesis
      by (simp add: str_nat.simps [of n] nat_of_digits_snoc digit_val_digit_char)
  qed
qed

lemma takeWhile_str_nat: "\<not> starts_digit r \<Longrightarrow> takeWhile is_digit (str_nat n @ r) = str_nat n"
  using str_nat_digits [of n]
  by (cases r) (auto simp: starts_digit_def list_all_iff takeWhile_append2 )

lemma dropWhile_str_nat: "\<not> starts_digit r \<Longrightarrow> dropWhile is_digit (str_nat n @ r) = r"
  using str_nat_digits [of n]
  by (cases r) (auto simp: starts_digit_def list_all_iff dropWhile_append2)

lemma starts_digit_str_nat: "starts_digit (str_nat n @ r)"
  using str_nat_digits [of n] str_nat_nonempty [of n]
  by (cases "str_nat n") (auto simp: starts_digit_def)

lemma digit_facts:
  assumes "is_digit c"
  shows "\<not> is_space c" "lower c = c" "c \<noteq> CHR ''v''" "c \<noteq> CHR ''!''" "c \<noteq> CHR ''.''"
    "\<not> is_sep c"
  using assms by (auto simp: is_digit_def is_space_def lower_def is_sep_def)

lemma dot_facts:
  "\<not> is_space CHR ''.''" "lower CHR ''.'' = CHR ''.''" "\<not> is_digit CHR ''.''"
  by (auto simp: is_digit_def is_space_def lower_def)


lemma strip_plain: "list_all plain s \<Longrightarrow> strip s = s"
proof -
  assume a: "list_all plain s"
  have n: "\<And>c. c \<in> set s \<Longrightarrow> \<not> is_space c"
    using a digit_facts(1) dot_facts(1) by (auto simp: list_all_iff plain_def)
  have d: "\<And>xs. (\<And>c. c \<in> set xs \<Longrightarrow> \<not> is_space c) \<Longrightarrow> dropWhile is_space xs = xs"
    subgoal for xs by (cases xs) auto
    done
  have "dropWhile is_space s = s"
    using n by (rule d)
  moreover have "dropWhile is_space (rev s) = rev s"
    using n by (intro d) simp
  ultimately show ?thesis by (simp add: strip_def)
qed

lemma lower_plain: "list_all plain s \<Longrightarrow> map lower s = s"
  using digit_facts(2) dot_facts(2) by (induction s) (auto simp: plain_def)

lemma plain_str_nat: "list_all plain (str_nat n)"
  using str_nat_digits [of n] by (auto simp: list_all_iff plain_def)

lemma release_tail_nil: "release_tail [] = ([], [])"
  by (simp add: release_tail.simps)

lemma not_starts_digit: "\<not> starts_digit []" "\<not> starts_digit (CHR ''.'' # r)"
  by (simp_all add: starts_digit_def dot_facts)

lemma release_tail_dot:
  "\<not> starts_digit r \<Longrightarrow> release_tail (CHR ''.'' # str_nat n @ r) =
     (case release_tail r of (ns, r') \<Rightarrow> (n # ns, r'))"
  by (subst release_tail.simps)
     (simp add: starts_digit_str_nat takeWhile_str_nat dropWhile_str_nat nat_of_digits_str_nat)

lemma not_v_str_nat: "take 1 (str_nat n @ r) \<noteq> ''v''"
  using starts_digit_str_nat [of n r] digit_facts(3)
  by (cases "str_nat n @ r") (auto simp: starts_digit_def)

lemma take_epoch_release: "take_epoch (str_nat n @ CHR ''.'' # r) = (0, str_nat n @ CHR ''.'' # r)"
  by (simp add: take_epoch_def starts_digit_str_nat dropWhile_str_nat not_starts_digit)

lemma take_release_three:
  "take_release (str_nat a @ CHR ''.'' # str_nat b @ CHR ''.'' # str_nat c) = Some ([a, b, c], [])"
proof -
  have c: "release_tail (CHR ''.'' # str_nat c) = ([c], [])"
    using release_tail_dot [of "[]" c] by (simp add: not_starts_digit release_tail_nil)
  have b: "release_tail (CHR ''.'' # str_nat b @ CHR ''.'' # str_nat c) = ([b, c], [])"
    using release_tail_dot [of "CHR ''.'' # str_nat c" b] c
    by (simp add: not_starts_digit)
  show ?thesis
    using b
    by (simp add: take_release_def starts_digit_str_nat takeWhile_str_nat dropWhile_str_nat
        nat_of_digits_str_nat not_starts_digit)
qed

lemma suffixes_nil:
  "take_pre [] = (None, [])" "take_post [] = (None, [])" "take_dev [] = (None, [])"
  "take_local [] = Some None"
  by (simp_all add: take_pre_def take_post_def take_dev_def take_local_def skip_sep_def
      pre_letters_def post_letters_def not_starts_digit)

lemma Version_three:
  "Version (str_nat a @ ''.'' @ str_nat b @ ''.'' @ str_nat c) = Inr (final_release a b c)"
proof -
  let ?s = "str_nat a @ CHR ''.'' # str_nat b @ CHR ''.'' # str_nat c"
  have p: "list_all plain ?s"
    using plain_str_nat by (simp add: plain_def)
  have "map lower (strip ?s) = ?s"
    using p strip_plain [of ?s] lower_plain [of ?s] by simp
  then show ?thesis
    using not_v_str_nat [of a "CHR ''.'' # str_nat b @ CHR ''.'' # str_nat c"]
    by (simp add: Version_def take_epoch_release take_release_three suffixes_nil
        final_release_def)
qed

lemma str_nat_0: "str_nat 0 = ''0''"
  by code_simp

lemma Version_major_bump: "Version (str_nat x @ ''.0.0'') = Inr (final_release x 0 0)"
  using Version_three [of x 0 0] by (simp add: str_nat_0)

lemma Version_minor_bump:
  "Version (str_nat x @ ''.'' @ str_nat y @ ''.0'') = Inr (final_release x y 0)"
  using Version_three [of x y 0] by (simp add: str_nat_0)

lemma get_next_version_three:
  "release cv = [major, minor, micro] \<Longrightarrow>
   get_next_version cv increment_major increment_minor =
     Inr (if increment_major then final_release (major + 1) 0 0
          else if increment_minor then final_release major (minor + 1) 0
          else if is_prerelease cv \<or> is_devrelease cv then cv
          else final_release major minor (micro + 1))"
  using Version_three [of major minor "micro + 1"] Version_major_bump [of "major + 1"]
    Version_minor_bump [of major "minor + 1"]
  by (simp add: get_next_version_def)

lemma get_next_version_unpack:
  "length (release cv) \<noteq> 3 \<Longrightarrow> get_next_version cv a b = Inl ValueError"
  by (auto simp: get_next_version_def split: list.splits)

lemma length_three: "length xs = 3 \<Longrightarrow> \<exists>x y z. xs = [x, y, z]"
  by (cases xs; cases "tl xs"; cases "tl (tl xs)") auto

lemma Version_1_2_3: "Version ''1.2.3'' = Inr (final_release 1 2 3)"
  by code_simp
lemma Version_1_3_0: "Version ''1.3.0'' = Inr (final_release 1 3 0)"
  by code_simp
lemma Version_1_2_3_dev0: "Version ''1.2.3.dev0'' = Inr \<lparr>epoch = 0, release = [1, 2, 3], pre = None, post = None, dev = Some 0, local = None\<rparr>"
  by code_simp


section \<open>Properties of \<^verbatim>\<open>get_next_version\<close>\<close>

text \<open>
  Claim C1. For a current version whose release is \<open>(major, minor, micro)\<close>,
  \<open>get_next_version\<close> returns \<open>(major+1).0.0\<close> when \<open>increment_major\<close> is set, else
  \<open>major.(minor+1).0\<close> when \<open>increment_minor\<close> is set, else the current version itself
  when it is a pre-release or a development release, else \<open>major.minor.(micro+1)\<close>.
  The two examples: \<^verbatim>\<open>1.2.3\<close> with \<open>increment_minor\<close> gives \<^verbatim>\<open>1.3.0\<close>, and \<^verbatim>\<open>1.2.3.dev0\<close>
  with no flag is returned unchanged.
\<close>

theorem get_next_version_priority_rule:
  "(release cv = [major, minor, micro] \<longrightarrow>
      get_next_version cv increment_major increment_minor =
        Inr (if increment_major then final_release (major + 1) 0 0
             else if increment_minor then final_release major (minor + 1) 0
             else if is_prerelease cv \<or> is_devrelease cv then cv
             else final_release major minor (micro + 1)))
   \<and> bind_result (Version ''1.2.3'') (\<lambda>v. get_next_version v False True) = Version ''1.3.0''
   \<and> Version ''1.3.0'' = Inr (final_release 1 3 0)
   \<and> bind_result (Version ''1.2.3.dev0'') (\<lambda>v. get_next_version v False False)
       = Version ''1.2.3.dev0''
   \<and> Version ''1.2.3.dev0'' =
       Inr \<lparr>epoch = 0, release = [1, 2, 3], pre = None, post = None, dev = Some 0,
            local = None\<rparr>"
proof -
  have rule: "release cv = [major, minor, micro] \<longrightarrow>
      get_next_version cv increment_major increment_minor =
        Inr (if increment_major then final_release (major + 1) 0 0
             else if increment_minor then final_release major (minor + 1) 0
             else if is_prerelease cv \<or> is_devrelease cv then cv
             else final_release major minor (micro + 1))"
    using get_next_version_three by blast
  have minor: "bind_result (Version ''1.2.3'') (\<lambda>v. get_next_version v False True)
      = Version ''1.3.0''"
    using get_next_version_three [of "final_release 1 2 3" 1 2 3 False True]
    by (simp add: Version_1_2_3 Version_1_3_0 bind_result_def final_release_def)
  have devel: "bind_result (Version ''1.2.3.dev0'') (\<lambda>v. get_next_version v False False)
      = Version ''1.2.3.dev0''"
    by (simp add: Version_1_2_3_dev0 bind_result_def get_next_version_def is_devrelease_def)
  show ?thesis
    using rule minor devel Version_1_3_0 Version_1_2_3_dev0 by blast
qed

theorem get_next_version_priority_rule_witness:
  "get_next_version (final_release 1 2 3) False False = Inr (final_release 1 2 4)"
  using get_next_version_priority_rule [of "final_release 1 2 3" 1 2 3 False False]
  by (simp add: final_release_def is_prerelease_def is_devrelease_def)

lemma final_release_plain:
  "\<not> is_prerelease (final_release x y z)" "\<not> is_devrelease (final_release x y z)"
  "epoch (final_release x y z) = 0" "release (final_release x y z) = [x, y, z]"
  "pre (final_release x y z) = None" "post (final_release x y z) = None"
  "dev (final_release x y z) = None" "local (final_release x y z) = None"
  by (simp_all add: final_release_def is_prerelease_def is_devrelease_def)




text \<open>
  Claim C5 (counterexample). With both flags set, the version \<^verbatim>\<open>1.2.3.4\<close> does not
  give \<^verbatim>\<open>2.0.0\<close>: the unpacking of its four release components raises \<open>ValueError\<close>.
\<close>

theorem get_next_version_both_flags_four_components:
  "Version ''1.2.3.4'' = Inr \<lparr>epoch = 0, release = [1, 2, 3, 4], pre = None, post = None, dev = None, local = None\<rparr>
   \<and> get_next_version \<lparr>epoch = 0, release = [1, 2, 3, 4], pre = None, post = None, dev = None, local = None\<rparr> True True = Inl ValueError"
  by (rule conjI, code_simp, simp add: get_next_version_def)

text \<open>
  Claim C5 (amended). With both flags set the outcome is that of \<open>increment_major\<close>
  alone, for every current version; for a current version whose release has three
  components that outcome is \<open>(major+1).0.0\<close>.
\<close>

theorem get_next_version_major_wins:
  "get_next_version cv True True = get_next_version cv True False
   \<and> (release cv = [major, minor, micro] \<longrightarrow>
        get_next_version cv True True = Inr (final_release (major + 1) 0 0))"
proof (intro conjI impI)
  show "get_next_version cv True True = get_next_version cv True False"
    by (simp add: get_next_version_def split: list.splits)
next
  assume "release cv = [major, minor, micro]"
  then show "get_next_version cv True True = Inr (final_release (major + 1) 0 0)"
    using get_next_version_three [of cv major minor micro True True] by simp
qed

theorem get_next_version_major_wins_witness:
  "get_next_version \<lparr>epoch = 0, release = [1, 2, 3], pre = Some (''rc'', 1), post = None, dev = None, local = None\<rparr> True True
     = Inr (final_release 2 0 0)"
proof -
  let ?cv = "\<lparr>epoch = 0, release = [1, 2, 3], pre = Some (''rc'', 1), post = None, dev = None, local = None\<rparr>"
  have "release ?cv = [1, 2, 3]" by simp
  with get_next_version_major_wins [of ?cv 1 2 3] have "get_next_version ?cv True True = Inr (final_release (1 + 1) 0 0)"
    by blast
  then show ?thesis by (simp only: one_add_one)
qed

lemma changed_is_final:
  assumes "get_next_version cv increment_major increment_minor = Inr r" and "r \<noteq> cv"
  shows "\<exists>x y z. r = final_release x y z"
proof -
  have "length (release cv) = 3"
    using assms get_next_version_unpack [of cv increment_major increment_minor] by auto
  then obtain x y z where rel: "release cv = [x, y, z]"
    using length_three by blast
  show ?thesis
    using assms get_next_version_three [OF rel, of increment_major increment_minor]
    by (auto split: if_splits)
qed

lemma increment_changes:
  assumes rel: "release cv = [major, minor, micro]"
    and inc: "increment_major \<or> increment_minor \<or> \<not> is_prerelease cv"
  shows "\<exists>r. get_next_version cv increment_major increment_minor = Inr r \<and> r \<noteq> cv
           \<and> (\<exists>x y z. r = final_release x y z)"
proof -
  have dev: "is_devrelease cv \<Longrightarrow> is_prerelease cv"
    by (simp add: is_devrelease_def is_prerelease_def)
  have ne: "\<And>x y z. [x, y, z] \<noteq> [major, minor, micro] \<Longrightarrow> final_release x y z \<noteq> cv"
    using rel final_release_plain(4) by metis
  show ?thesis
    using inc dev ne get_next_version_three [OF rel, of increment_major increment_minor]
    by auto
qed

text \<open>
  Claim C10. A version returned by \<open>get_next_version\<close> that differs from its input is a
  bare final release \<open>X.Y.Z\<close>: three release components, no epoch, and no pre, post, dev
  or local segment, hence neither a pre-release nor a development release. This is
  the case in each increment branch: with a three-component release and either flag
  set, or with no flag and a current version that is not a pre-release.
\<close>

theorem get_next_version_changed_is_bare_final:
  "(get_next_version cv increment_major increment_minor = Inr r \<and> r \<noteq> cv \<longrightarrow>
      (\<exists>x y z. r = final_release x y z) \<and> length (release r) = 3
      \<and> \<not> is_prerelease r \<and> \<not> is_devrelease r
      \<and> epoch r = 0 \<and> pre r = None \<and> post r = None \<and> dev r = None \<and> local r = None)
   \<and> (release cv = [major, minor, micro]
        \<and> (increment_major \<or> increment_minor \<or> \<not> is_prerelease cv) \<longrightarrow>
      (\<exists>r. get_next_version cv increment_major increment_minor = Inr r \<and> r \<noteq> cv
           \<and> (\<exists>x y z. r = final_release x y z)))"
proof (rule conjI)
  show "get_next_version cv increment_major increment_minor = Inr r \<and> r \<noteq> cv \<longrightarrow>
      (\<exists>x y z. r = final_release x y z) \<and> length (release r) = 3
      \<and> \<not> is_prerelease r \<and> \<not> is_devrelease r
      \<and> epoch r = 0 \<and> pre r = None \<and> post r = None \<and> dev r = None \<and> local r = None"
  proof (rule impI)
    assume a: "get_next_version cv increment_major increment_minor = Inr r \<and> r \<noteq> cv"
    then obtain x y z where r: "r = final_release x y z"
      using changed_is_final by blast
    show "(\<exists>x y z. r = final_release x y z) \<and> length (release r) = 3
      \<and> \<not> is_prerelease r \<and> \<not> is_devrelease r
      \<and> epoch r = 0 \<and> pre r = None \<and> post r = None \<and> dev r = None \<and> local r = None"
      using r final_release_plain [of x y z] by auto
  qed
next
  show "release cv = [major, minor, micro]
        \<and> (increment_major \<or> increment_minor \<or> \<not> is_prerelease cv) \<longrightarrow>
      (\<exists>r. get_next_version cv increment_major increment_minor = Inr r \<and> r \<noteq> cv
           \<and> (\<exists>x y z. r = final_release x y z))"
    using increment_changes by blast
qed

theorem get_next_version_changed_is_bare_final_witness:
  "get_next_version \<lparr>epoch = 1, release = [1, 2, 3], pre = Some (''rc'', 1), post = Some 2, dev = Some 3, local = Some [LStr ''abc'']\<rparr> False True = Inr (final_release 1 3 0)
   \<and> \<not> is_prerelease (final_release 1 3 0) \<and> local (final_release 1 3 0) = None"
proof -
  let ?cv = "\<lparr>epoch = 1, release = [1, 2, 3], pre = Some (''rc'', 1), post = Some 2, dev = Some 3, local = Some [LStr ''abc'']\<rparr>"
  have g: "get_next_version ?cv False True = Inr (final_release 1 3 0)"
    using get_next_version_three [of ?cv 1 2 3 False True] by simp
  have n: "final_release 1 3 0 \<noteq> ?cv"
    by (simp add: final_release_def)
  show ?thesis
    using g n get_next_version_changed_is_bare_final [of ?cv False True "final_release 1 3 0" 1 2 3] by simp
qed

section \<open>Properties of \<^verbatim>\<open>get_next_milestone_version\<close>\<close>

lemma first_later_sorted:
  "sorted (map cmpkey xs) \<Longrightarrow> first_later v xs = Inr r \<Longrightarrow>
   r \<in> set xs \<and> version_gt r v \<and> (\<forall>k\<in>set xs. version_gt k v \<longrightarrow> version_le r k)"
proof (induction xs)
  case Nil
  then show ?case by simp
next
  case (Cons x xs)
  show ?case
  proof (cases "version_gt x v")
    case True
    with Cons.prems show ?thesis by (auto simp: version_le_def)
  next
    case False
    with Cons show ?thesis by auto
  qed
qed

lemma first_later_error:
  "first_later v xs = Inl e \<Longrightarrow> e = RuntimeError \<and> (\<forall>k\<in>set xs. \<not> version_gt k v)"
  by (induction xs) (auto split: if_splits)

lemma first_later_none: "(\<forall>k\<in>set xs. \<not> version_gt k v) \<Longrightarrow> first_later v xs = Inl RuntimeError"
  by (induction xs) auto

lemma set_py_sorted: "set (py_sorted xs) = set xs"
  by (simp add: py_sorted_def)

lemma sorted_py_sorted: "sorted (map cmpkey (py_sorted xs))"
  by (simp add: py_sorted_def)

lemma next_milestone_least:
  "get_next_milestone_version v m = Inr r \<Longrightarrow> is_least_later v m r"
  using first_later_sorted [OF sorted_py_sorted, of v "dict_keys m" r]
  by (simp add: get_next_milestone_version_def is_least_later_def set_py_sorted)

lemma next_milestone_error:
  "get_next_milestone_version v m = Inl e \<Longrightarrow>
     e = RuntimeError \<and> (\<forall>k\<in>set (dict_keys m). \<not> version_gt k v)"
  using first_later_error [of v "py_sorted (dict_keys m)" e]
  by (simp add: get_next_milestone_version_def set_py_sorted)

lemma next_milestone_none:
  "(\<forall>k\<in>set (dict_keys m). \<not> version_gt k v) \<Longrightarrow> get_next_milestone_version v m = Inl RuntimeError"
  using first_later_none [of "py_sorted (dict_keys m)" v]
  by (simp add: get_next_milestone_version_def set_py_sorted)

lemma least_later_unique:
  assumes "dict_ok m" "is_least_later v m r" "is_least_later v m r'"
  shows "r = r'"
proof -
  have "cmpkey r = cmpkey r'"
    using assms(2,3) by (auto simp: is_least_later_def version_le_def intro: antisym)
  moreover have "inj_on cmpkey (set (dict_keys m))"
    using assms(1) by (simp add: dict_ok_def distinct_map)
  ultimately show ?thesis
    using assms(2,3) by (auto simp: is_least_later_def dest: inj_onD)
qed

lemma next_milestone_complete:
  assumes "dict_ok m" "is_least_later v m r"
  shows "get_next_milestone_version v m = Inr r"
proof (cases "get_next_milestone_version v m")
  case (Inl e)
  then show ?thesis
    using next_milestone_error [of v m e] assms(2) by (auto simp: is_least_later_def)
next
  case (Inr r')
  then show ?thesis
    using next_milestone_least [of v m r'] least_later_unique [OF assms, of r'] by simp
qed

text \<open>
  Claim C2. \<open>get_next_milestone_version v m\<close> returns a least key of \<open>m\<close> among those
  greater than \<open>v\<close>, and in a dictionary (no two equal keys) it returns every such
  key, so the result is the minimum; it fails exactly when \<open>m\<close> is empty or has no
  key greater than \<open>v\<close>, and then with \<open>RuntimeError\<close>.
\<close>

theorem get_next_milestone_version_least_later:
  "(get_next_milestone_version v m = Inr r \<longrightarrow> is_least_later v m r)
   \<and> (dict_ok m \<and> is_least_later v m r \<longrightarrow> get_next_milestone_version v m = Inr r)
   \<and> ((\<exists>e. get_next_milestone_version v m = Inl e) =
        (m = [] \<or> (\<forall>k \<in> set (dict_keys m). \<not> version_gt k v)))
   \<and> (get_next_milestone_version v m = Inl e \<longrightarrow> e = RuntimeError)"
proof -
  have a: "get_next_milestone_version v m = Inr r \<longrightarrow> is_least_later v m r"
    using next_milestone_least by blast
  have b: "dict_ok m \<and> is_least_later v m r \<longrightarrow> get_next_milestone_version v m = Inr r"
    using next_milestone_complete by blast
  have c: "(\<exists>e. get_next_milestone_version v m = Inl e) =
        (m = [] \<or> (\<forall>k \<in> set (dict_keys m). \<not> version_gt k v))"
    using next_milestone_error [of v m] next_milestone_none [of m v]
    by (auto simp: dict_keys_def)
  have d: "get_next_milestone_version v m = Inl e \<longrightarrow> e = RuntimeError"
    using next_milestone_error by blast
  show ?thesis using a b c d by blast
qed



lemma example_milestones_fetched:
  "get_milestone_numbers
     (JsonList [\<lparr>milestone_title = ''1.3.0'', milestone_number = 1\<rparr>, \<lparr>milestone_title = ''2.0.0'', milestone_number = 2\<rparr>])
   = Inr example_milestones"
  by code_simp

lemma example_next_milestone:
  "get_next_milestone_version (final_release 1 3 0) example_milestones
     = Inr (final_release 2 0 0)"
  by code_simp

lemma example_milestones_ok: "dict_ok example_milestones"
  by code_simp

lemma example_no_later:
  "\<forall>k \<in> set (dict_keys example_milestones). \<not> version_gt k (final_release 2 0 0)"
  by code_simp

theorem get_next_milestone_version_least_later_witness:
  "get_next_milestone_version (final_release 1 3 0) example_milestones
     = Inr (final_release 2 0 0)
   \<and> is_least_later (final_release 1 3 0) example_milestones (final_release 2 0 0)
   \<and> dict_get example_milestones (final_release 2 0 0) = Inr ''2''
   \<and> get_next_milestone_version (final_release 2 0 0) example_milestones = Inl RuntimeError"
proof -
  have least: "is_least_later (final_release 1 3 0) example_milestones (final_release 2 0 0)"
    using get_next_milestone_version_least_later
      [of "final_release 1 3 0" example_milestones "final_release 2 0 0"]
      example_next_milestone
    by blast
  have "\<exists>e. get_next_milestone_version (final_release 2 0 0) example_milestones = Inl e"
    using get_next_milestone_version_least_later
      [of "final_release 2 0 0" example_milestones] example_no_later
    by blast
  then have none: "get_next_milestone_version (final_release 2 0 0) example_milestones
      = Inl RuntimeError"
    using get_next_milestone_version_least_later
      [of "final_release 2 0 0" example_milestones]
    by blast
  have "dict_get example_milestones (final_release 2 0 0) = Inr ''2''"
    by code_simp
  then show ?thesis
    using least none example_next_milestone by blast
qed

section \<open>Properties of \<^verbatim>\<open>patch_changelog\<close>\<close>

lemma occurs_at_0: "occurs_at sub s 0 = (take (length sub) s = sub)"
  by (simp add: occurs_at_def)

lemma occurs_at_Suc: "occurs_at sub (c # cs) (Suc i) = occurs_at sub cs i"
  by (simp add: occurs_at_def)

lemma str_index_Some:
  "str_index s sub = Some i \<Longrightarrow> occurs_at sub s i \<and> (\<forall>j<i. \<not> occurs_at sub s j)"
proof (induction s arbitrary: i)
  case Nil
  then show ?case by (auto simp: occurs_at_def split: if_splits)
next
  case (Cons c cs)
  show ?case
  proof (cases "take (length sub) (c # cs) = sub")
    case True
    with Cons.prems show ?thesis by (simp add: occurs_at_0)
  next
    case False
    with Cons.prems obtain i' where i': "str_index cs sub = Some i'" "i = Suc i'"
      by auto
    have ih: "occurs_at sub cs i' \<and> (\<forall>j<i'. \<not> occurs_at sub cs j)"
      using Cons.IH [OF i'(1)] .
    have "\<not> occurs_at sub (c # cs) j" if "j < i" for j
    proof (cases j)
      case 0
      with False show ?thesis by (simp add: occurs_at_0)
    next
      case (Suc j')
      with that i' ih show ?thesis by (simp add: occurs_at_Suc)
    qed
    with ih i' show ?thesis by (simp add: occurs_at_Suc)
  qed
qed

lemma str_index_None: "str_index s sub = None \<Longrightarrow> \<not> occurs_at sub s j"
proof (induction s arbitrary: j)
  case Nil
  then show ?case by (auto simp: occurs_at_def split: if_splits)
next
  case (Cons c cs)
  then have a: "take (length sub) (c # cs) \<noteq> sub" and b: "str_index cs sub = None"
    by (auto split: if_splits)
  show ?case
  proof (cases j)
    case 0
    with a show ?thesis by (simp add: occurs_at_0)
  next
    case (Suc j')
    with Cons.IH [OF b] show ?thesis by (simp add: occurs_at_Suc)
  qed
qed

lemma str_index_None_iff: "(str_index s sub = None) = (\<not> contains s sub)"
proof
  assume "str_index s sub = None"
  then show "\<not> contains s sub"
    using str_index_None by (auto simp: contains_def)
next
  assume a: "\<not> contains s sub"
  show "str_index s sub = None"
  proof (cases "str_index s sub")
    case None
    then show ?thesis .
  next
    case (Some i)
    then have "occurs_at sub s i" using str_index_Some by blast
    with a show ?thesis by (auto simp: contains_def occurs_at_def)
  qed
qed

lemma occurs_at_split:
  assumes "occurs_at sub s i"
  shows "s = take i s @ sub @ drop (i + length sub) s"
proof -
  have t: "take (length sub) (drop i s) = sub"
    using assms by (simp add: occurs_at_def)
  have "take i s @ sub @ drop (i + length sub) s
      = take i s @ take (length sub) (drop i s) @ drop (length sub) (drop i s)"
    by (simp add: t add.commute)
  also have "\<dots> = s"
    by (simp only: append_take_drop_id)
  finally show ?thesis by simp
qed

lemma contains_iff: "contains s sub = (\<exists>p q. s = p @ sub @ q)"
proof
  assume "contains s sub"
  then obtain i where "occurs_at sub s i" by (auto simp: contains_def)
  from occurs_at_split [OF this] show "\<exists>p q. s = p @ sub @ q" by blast
next
  assume "\<exists>p q. s = p @ sub @ q"
  then obtain p q where "s = p @ sub @ q" by blast
  then have "occurs_at sub s (length p)" by (simp add: occurs_at_def)
  then show "contains s sub" by (auto simp: contains_def occurs_at_def)
qed

lemma str_index_split:
  assumes "str_index s sub = Some i"
  shows "s = take i s @ sub @ drop (i + length sub) s"
    and "take (i + length sub) s = take i s @ sub"
    and "length (take i s) = i"
    and "\<forall>j<i. \<not> occurs_at sub s j"
proof -
  have o: "occurs_at sub s i" and m: "\<forall>j<i. \<not> occurs_at sub s j"
    using str_index_Some [OF assms] by auto
  show s: "s = take i s @ sub @ drop (i + length sub) s"
    using occurs_at_split [OF o] .
  have i: "i \<le> length s" using o by (simp add: occurs_at_def)
  then show l: "length (take i s) = i" by simp
  have "take (i + length sub) s = take (i + length sub) (take i s @ sub @ drop (i + length sub) s)"
    using s by simp
  also have "\<dots> = take i s @ sub"
    using l by (simp del: length_take)
  finally show "take (i + length sub) s = take i s @ sub" .
  show "\<forall>j<i. \<not> occurs_at sub s j" using m .
qed

lemma patch_changelog_absent:
  assumes "read_text ''CHANGES.rst'' w = Inr content"
    and "\<not> (\<exists>p q. content = p @ before_unreleased @ q)"
  shows "patch_changelog next_version dry_run today w = (Inl ValueError, w)"
proof -
  have "str_index content before_unreleased = None"
    using assms(2) by (simp add: str_index_None_iff contains_iff)
  then show ?thesis
    using assms(1) by (simp add: patch_changelog_def)
qed

lemma patch_changelog_present:
  assumes f: "read_text ''CHANGES.rst'' w = Inr content"
    and c: "\<exists>p q. content = p @ before_unreleased @ q"
  shows "\<exists>p q. content = p @ before_unreleased @ q
      \<and> (\<forall>j<length p. \<not> occurs_at before_unreleased content j)
      \<and> patch_changelog next_version False today w =
          (Inr (), write_text ''CHANGES.rst''
             (p @ before_unreleased @ unreleased_section (changelog_title next_version today) @ q) w)
      \<and> patch_changelog next_version True today w =
          (Inr (), print (take 200
             (p @ before_unreleased @ unreleased_section (changelog_title next_version today) @ q))
             (print ''######## CHANGES.rst ########'' w))"
proof -
  have "str_index content before_unreleased \<noteq> None"
    using c by (simp add: str_index_None_iff contains_iff)
  then obtain i where i: "str_index content before_unreleased = Some i" by blast
  let ?p = "take i content" and ?q = "drop (i + length before_unreleased) content"
  note s = str_index_split [OF i]
  have "patch_changelog next_version False today w =
          (Inr (), write_text ''CHANGES.rst''
             (?p @ before_unreleased @ unreleased_section (changelog_title next_version today) @ ?q) w)"
    using f i s(2) by (simp add: patch_changelog_def Let_def)
  moreover have "patch_changelog next_version True today w =
          (Inr (), print (take 200
             (?p @ before_unreleased @ unreleased_section (changelog_title next_version today) @ ?q))
             (print ''######## CHANGES.rst ########'' w))"
    using f i by (simp add: patch_changelog_def Let_def s(2) del: take_append)
  moreover have "\<forall>j<length ?p. \<not> occurs_at before_unreleased content j"
    using s(3,4) by simp
  ultimately show ?thesis
    using s(1) by blast
qed

lemma first_occurrence:
  assumes "\<forall>j<length p. \<not> occurs_at sub s j" and "s = p' @ sub @ q'"
  shows "length p \<le> length p'"
proof (rule ccontr)
  assume "\<not> length p \<le> length p'"
  then have "length p' < length p" by simp
  moreover have "occurs_at sub s (length p')"
    using assms(2) by (simp add: occurs_at_def)
  ultimately show False using assms(1) by blast
qed

lemma patch_changelog_outcome:
  assumes f: "read_text ''CHANGES.rst'' w = Inr content"
    and c: "\<exists>p q. content = p @ before_unreleased @ q"
  shows "\<exists>p q. content = p @ before_unreleased @ q
       \<and> (\<forall>p' q'. content = p' @ before_unreleased @ q' \<longrightarrow> length p \<le> length p')
       \<and> fst (patch_changelog next_version False today w) = Inr ()
       \<and> files (snd (patch_changelog next_version False today w))
           = (files w)(''CHANGES.rst'' \<mapsto>
               p @ before_unreleased @ unreleased_section (changelog_title next_version today) @ q)
       \<and> stdout (snd (patch_changelog next_version False today w)) = stdout w
       \<and> fst (patch_changelog next_version True today w) = Inr ()
       \<and> files (snd (patch_changelog next_version True today w)) = files w
       \<and> stdout (snd (patch_changelog next_version True today w))
           = stdout w @ ''######## CHANGES.rst ########'' @ [NL]
             @ take 200
                 (p @ before_unreleased @ unreleased_section (changelog_title next_version today) @ q)
             @ [NL]"
proof -
  from patch_changelog_present [OF f c, of next_version today] obtain p q where
    pq: "content = p @ before_unreleased @ q"
    and first: "\<forall>j<length p. \<not> occurs_at before_unreleased content j"
    and wr: "patch_changelog next_version False today w =
          (Inr (), write_text ''CHANGES.rst''
             (p @ before_unreleased @ unreleased_section (changelog_title next_version today) @ q) w)"
    and dry: "patch_changelog next_version True today w =
          (Inr (), print (take 200
             (p @ before_unreleased @ unreleased_section (changelog_title next_version today) @ q))
             (print ''######## CHANGES.rst ########'' w))"
    by blast
  have least: "\<forall>p' q'. content = p' @ before_unreleased @ q' \<longrightarrow> length p \<le> length p'"
    using first_occurrence [OF first] by blast
  have a: "fst (patch_changelog next_version False today w) = Inr ()"
    and b: "files (snd (patch_changelog next_version False today w))
           = (files w)(''CHANGES.rst'' \<mapsto>
               p @ before_unreleased @ unreleased_section (changelog_title next_version today) @ q)"
    and c: "stdout (snd (patch_changelog next_version False today w)) = stdout w"
    by (simp_all add: wr write_text_def)
  have d: "fst (patch_changelog next_version True today w) = Inr ()"
    and e: "files (snd (patch_changelog next_version True today w)) = files w"
    and g: "stdout (snd (patch_changelog next_version True today w))
           = stdout w @ ''######## CHANGES.rst ########'' @ [NL]
             @ take 200
                 (p @ before_unreleased @ unreleased_section (changelog_title next_version today) @ q)
             @ [NL]"
    by (simp_all add: dry print_def del: take_append)
  show ?thesis
    using pq least a b c d e g by blast
qed

lemma patch_changelog_no_anchor:
  "read_text ''CHANGES.rst'' w = Inr content
      \<and> \<not> (\<exists>p q. content = p @ ''These features will be included in the next release:'' @ [NL, NL] @ q) \<longrightarrow>
    patch_changelog next_version dry_run today w = (Inl ValueError, w)"
  using patch_changelog_absent [of w content next_version dry_run today]
  unfolding before_unreleased_def
  by (simp only: append_assoc) blast

lemma patch_changelog_with_anchor:
  "read_text ''CHANGES.rst'' w = Inr content
      \<and> (\<exists>p q. content = p @ ''These features will be included in the next release:'' @ [NL, NL] @ q) \<longrightarrow>
    (\<exists>p q. content = p @ ''These features will be included in the next release:'' @ [NL, NL] @ q
       \<and> (\<forall>p' q'. content = p' @ ''These features will be included in the next release:'' @ [NL, NL] @ q'
              \<longrightarrow> length p \<le> length p')
       \<and> fst (patch_changelog next_version False today w) = Inr ()
       \<and> files (snd (patch_changelog next_version False today w))
           = (files w)(''CHANGES.rst'' \<mapsto>
               p @ ''These features will be included in the next release:'' @ [NL, NL]
               @ ''Added'' @ [NL] @ ''-----'' @ [NL, NL] @ ''Fixed'' @ [NL] @ ''-----'' @ [NL, NL, NL]
               @ str_version next_version @ ''_ - '' @ str_date today @ [NL]
               @ replicate (length (str_version next_version @ ''_ - '' @ str_date today)) CHR ''='' @ [NL, NL]
               @ q)
       \<and> stdout (snd (patch_changelog next_version False today w)) = stdout w
       \<and> fst (patch_changelog next_version True today w) = Inr ()
       \<and> files (snd (patch_changelog next_version True today w)) = files w
       \<and> stdout (snd (patch_changelog next_version True today w))
           = stdout w @ ''######## CHANGES.rst ########'' @ [NL]
             @ take 200
                 (p @ ''These features will be included in the next release:'' @ [NL, NL]
                  @ ''Added'' @ [NL] @ ''-----'' @ [NL, NL] @ ''Fixed'' @ [NL] @ ''-----'' @ [NL, NL, NL]
                  @ str_version next_version @ ''_ - '' @ str_date today @ [NL]
                  @ replicate (length (str_version next_version @ ''_ - '' @ str_date today)) CHR ''='' @ [NL, NL]
                  @ q)
             @ [NL])"
  using patch_changelog_outcome [of w content next_version today]
  unfolding before_unreleased_def unreleased_section_def changelog_title_def
  by (simp only: append_assoc) blast

text \<open>
  Claim C7. Let \<open>content\<close> be the text that \<^verbatim>\<open>read_text\<close> returns for \<^verbatim>\<open>CHANGES.rst\<close>.
  When it does not contain the anchor, \<open>patch_changelog\<close> raises \<open>ValueError\<close>, in
  both modes, and leaves the world as it was: no file is written and nothing is
  printed. When it contains the anchor, let \<open>p\<close> be the text before the first
  occurrence of the anchor and \<open>q\<close> the text after it. Then \<open>patch_changelog\<close>
  returns; the new content is \<open>p\<close>, the anchor, the two empty subsections
  \<^verbatim>\<open>Added\<close> and \<^verbatim>\<open>Fixed\<close>, the title with the version and the date, its underline of
  the same length, and \<open>q\<close>. Without \<^verbatim>\<open>dry_run\<close> the file \<^verbatim>\<open>CHANGES.rst\<close> holds the new
  content afterwards, every other file is as before and nothing is printed; with
  \<^verbatim>\<open>dry_run\<close> no file changes, and the banner and the first 200 characters of the
  new content are printed.
\<close>

theorem patch_changelog_at_anchor:
  "(read_text ''CHANGES.rst'' w = Inr content
      \<and> \<not> (\<exists>p q. content = p @ ''These features will be included in the next release:'' @ [NL, NL] @ q) \<longrightarrow>
    patch_changelog next_version dry_run today w = (Inl ValueError, w))
   \<and> (read_text ''CHANGES.rst'' w = Inr content
      \<and> (\<exists>p q. content = p @ ''These features will be included in the next release:'' @ [NL, NL] @ q) \<longrightarrow>
    (\<exists>p q. content = p @ ''These features will be included in the next release:'' @ [NL, NL] @ q
       \<and> (\<forall>p' q'. content = p' @ ''These features will be included in the next release:'' @ [NL, NL] @ q'
              \<longrightarrow> length p \<le> length p')
       \<and> fst (patch_changelog next_version False today w) = Inr ()
       \<and> files (snd (patch_changelog next_version False today w))
           = (files w)(''CHANGES.rst'' \<mapsto>
               p @ ''These features will be included in the next release:'' @ [NL, NL]
               @ ''Added'' @ [NL] @ ''-----'' @ [NL, NL] @ ''Fixed'' @ [NL] @ ''-----'' @ [NL, NL, NL]
               @ str_version next_version @ ''_ - '' @ str_date today @ [NL]
               @ replicate (length (str_version next_version @ ''_ - '' @ str_date today)) CHR ''='' @ [NL, NL]
               @ q)
       \<and> stdout (snd (patch_changelog next_version False today w)) = stdout w
       \<and> fst (patch_changelog next_version True today w) = Inr ()
       \<and> files (snd (patch_changelog next_version True today w)) = files w
       \<and> stdout (snd (patch_changelog next_version True today w))
           = stdout w @ ''######## CHANGES.rst ########'' @ [NL]
             @ take 200
                 (p @ ''These features will be included in the next release:'' @ [NL, NL]
                  @ ''Added'' @ [NL] @ ''-----'' @ [NL, NL] @ ''Fixed'' @ [NL] @ ''-----'' @ [NL, NL, NL]
                  @ str_version next_version @ ''_ - '' @ str_date today @ [NL]
                  @ replicate (length (str_version next_version @ ''_ - '' @ str_date today)) CHR ''='' @ [NL, NL]
                  @ q)
             @ [NL]))"
  by (rule conjI [OF patch_changelog_no_anchor patch_changelog_with_anchor])

lemma example_no_anchor:
  "\<not> (\<exists>p q. ''Unreleased_'' = p @ ''These features will be included in the next release:'' @ [NL, NL] @ q)"
proof -
  have "str_index ''Unreleased_'' before_unreleased = None"
    by code_simp
  then have "\<not> contains ''Unreleased_'' before_unreleased"
    using str_index_None_iff by blast
  then have "\<not> (\<exists>p q. ''Unreleased_'' = p @ before_unreleased @ q)"
    using contains_iff by blast
  then show ?thesis
    unfolding before_unreleased_def by (simp only: append_assoc simp_thms)
qed

lemma example_read_crlf:
  "read_text ''CHANGES.rst'' (example_world crlf_changelog)
     = Inr (''Unreleased_'' @ [NL]
          @ ''These features will be included in the next release:'' @ [NL, NL]
          @ ''1.2.3_ - 2021-02-01'' @ [NL] @ ''==================='' @ [NL, NL]
          @ ''Fixed'' @ [NL] @ ''-----'' @ [NL]
          @ ''- Something was fixed.'' @ [NL])"
  by code_simp

lemma example_patched_file:
  "files (snd (patch_changelog (final_release 1 3 0) False example_date
       (example_world crlf_changelog))) ''CHANGES.rst''
     = Some (''Unreleased_'' @ [NL]
          @ ''These features will be included in the next release:'' @ [NL, NL]
          @ ''Added'' @ [NL] @ ''-----'' @ [NL, NL]
          @ ''Fixed'' @ [NL] @ ''-----'' @ [NL, NL, NL]
          @ ''1.3.0_ - 2021-03-07'' @ [NL] @ ''==================='' @ [NL, NL]
          @ ''1.2.3_ - 2021-02-01'' @ [NL] @ ''==================='' @ [NL, NL]
          @ ''Fixed'' @ [NL] @ ''-----'' @ [NL]
          @ ''- Something was fixed.'' @ [NL])"
  by code_simp

lemma example_patched_output:
  "stdout (snd (patch_changelog (final_release 1 3 0) True example_date
       (example_world crlf_changelog)))
     = ''######## CHANGES.rst ########'' @ [NL]
       @ (''Unreleased_'' @ [NL]
          @ ''These features will be included in the next release:'' @ [NL, NL]
          @ ''Added'' @ [NL] @ ''-----'' @ [NL, NL]
          @ ''Fixed'' @ [NL] @ ''-----'' @ [NL, NL, NL]
          @ ''1.3.0_ - 2021-03-07'' @ [NL] @ ''==================='' @ [NL, NL]
          @ ''1.2.3_ - 2021-02-01'' @ [NL] @ ''==================='' @ [NL, NL]
          @ ''Fixed'' @ [NL] @ ''-----'' @ [NL]
          @ ''- Something w'')
       @ [NL]"
  by code_simp

theorem patch_changelog_at_anchor_witness:
  "patch_changelog (final_release 1 3 0) False example_date (example_world ''Unreleased_'')
     = (Inl ValueError, example_world ''Unreleased_'')
   \<and> read_text ''CHANGES.rst'' (example_world crlf_changelog)
     = Inr (''Unreleased_'' @ [NL]
          @ ''These features will be included in the next release:'' @ [NL, NL]
          @ ''1.2.3_ - 2021-02-01'' @ [NL] @ ''==================='' @ [NL, NL]
          @ ''Fixed'' @ [NL] @ ''-----'' @ [NL]
          @ ''- Something was fixed.'' @ [NL])
   \<and> fst (patch_changelog (final_release 1 3 0) False example_date
        (example_world crlf_changelog)) = Inr ()
   \<and> files (snd (patch_changelog (final_release 1 3 0) False example_date
        (example_world crlf_changelog))) ''CHANGES.rst''
     = Some (''Unreleased_'' @ [NL]
          @ ''These features will be included in the next release:'' @ [NL, NL]
          @ ''Added'' @ [NL] @ ''-----'' @ [NL, NL]
          @ ''Fixed'' @ [NL] @ ''-----'' @ [NL, NL, NL]
          @ ''1.3.0_ - 2021-03-07'' @ [NL] @ ''==================='' @ [NL, NL]
          @ ''1.2.3_ - 2021-02-01'' @ [NL] @ ''==================='' @ [NL, NL]
          @ ''Fixed'' @ [NL] @ ''-----'' @ [NL]
          @ ''- Something was fixed.'' @ [NL])
   \<and> stdout (snd (patch_changelog (final_release 1 3 0) False example_date
        (example_world crlf_changelog))) = []
   \<and> files (snd (patch_changelog (final_release 1 3 0) True example_date
        (example_world crlf_changelog))) = files (example_world crlf_changelog)
   \<and> stdout (snd (patch_changelog (final_release 1 3 0) True example_date
        (example_world crlf_changelog)))
     = ''######## CHANGES.rst ########'' @ [NL]
       @ (''Unreleased_'' @ [NL]
          @ ''These features will be included in the next release:'' @ [NL, NL]
          @ ''Added'' @ [NL] @ ''-----'' @ [NL, NL]
          @ ''Fixed'' @ [NL] @ ''-----'' @ [NL, NL, NL]
          @ ''1.3.0_ - 2021-03-07'' @ [NL] @ ''==================='' @ [NL, NL]
          @ ''1.2.3_ - 2021-02-01'' @ [NL] @ ''==================='' @ [NL, NL]
          @ ''Fixed'' @ [NL] @ ''-----'' @ [NL]
          @ ''- Something w'')
       @ [NL]"
proof -
  have r0: "read_text ''CHANGES.rst'' (example_world ''Unreleased_'') = Inr ''Unreleased_''"
    by code_simp
  have absent: "patch_changelog (final_release 1 3 0) False example_date
      (example_world ''Unreleased_'') = (Inl ValueError, example_world ''Unreleased_'')"
    using patch_changelog_at_anchor
      [of "example_world ''Unreleased_''" "''Unreleased_''" "final_release 1 3 0" False
        example_date]
      r0 example_no_anchor
    by blast
  have anchor: "\<exists>p q. ''Unreleased_'' @ [NL]
          @ ''These features will be included in the next release:'' @ [NL, NL]
          @ ''1.2.3_ - 2021-02-01'' @ [NL] @ ''==================='' @ [NL, NL]
          @ ''Fixed'' @ [NL] @ ''-----'' @ [NL]
          @ ''- Something was fixed.'' @ [NL]
      = p @ ''These features will be included in the next release:'' @ [NL, NL] @ q"
    by (rule exI [of _ "''Unreleased_'' @ [NL]"]) simp
  have present: "fst (patch_changelog (final_release 1 3 0) False example_date
        (example_world crlf_changelog)) = Inr ()
      \<and> stdout (snd (patch_changelog (final_release 1 3 0) False example_date
        (example_world crlf_changelog))) = stdout (example_world crlf_changelog)
      \<and> files (snd (patch_changelog (final_release 1 3 0) True example_date
        (example_world crlf_changelog))) = files (example_world crlf_changelog)"
    using patch_changelog_at_anchor
      [of "example_world crlf_changelog" _ "final_release 1 3 0" False example_date]
      example_read_crlf anchor
    by blast
  have s: "stdout (example_world crlf_changelog) = []"
    by (simp add: example_world_def)
  show ?thesis
    using absent present s example_read_crlf example_patched_file example_patched_output
    by (simp only: simp_thms)
qed

section \<open>Properties of \<^verbatim>\<open>bump_version\<close> and \<^verbatim>\<open>get_replacements\<close>\<close>

lemma files_print: "files (print s w) = files w"
  by (simp add: print_def)

lemma stdout_print: "stdout (print s w) = stdout w @ s @ [NL]"
  by (simp add: print_def)

lemma read_text_cong: "files w1 = files w \<Longrightarrow> read_text path w1 = read_text path w"
  by (simp add: read_text_def)

lemma dry_run_report_cong:
  "files w1 = files w \<Longrightarrow> dry_run_report p r w1 e = dry_run_report p r w e"
  by (simp add: dry_run_report_def read_text_def)

lemma rewrite_files_dry:
  "rewrite_files p r table True w = (res, w') \<Longrightarrow> files w' = files w"
proof (induction table arbitrary: w)
  case Nil
  then show ?case by simp
next
  case (Cons e table)
  obtain path ts where e: "e = (path, ts)" by (cases e)
  show ?case
  proof (cases "read_text path w")
    case (Inl err)
    with Cons.prems show ?thesis by (simp add: e)
  next
    case (Inr content)
    show ?thesis
    proof (cases "apply_templates p r ts content")
      case (Inl err)
      with Cons.prems Inr show ?thesis by (simp add: e)
    next
      case (Inr content')
      have "rewrite_files p r table True (print content' (print (file_banner path) w))
          = (res, w')"
        using Cons.prems \<open>read_text path w = Inr content\<close> Inr by (simp add: e)
      from Cons.IH [OF this] show ?thesis by (simp add: files_print)
    qed
  qed
qed

lemma foldl_raised:
  "foldl (\<lambda>r t. case r of Inl err \<Rightarrow> Inl err | Inr c \<Rightarrow> f t c) (Inl e) ts = Inl e"
  by (induction ts) simp_all

lemma apply_templates_foldl:
  "apply_templates p r ts content =
     foldl (\<lambda>res t. case res of Inl err \<Rightarrow> Inl err | Inr c \<Rightarrow> apply_template p r t c)
       (Inr content) ts"
proof (induction ts arbitrary: content)
  case Nil
  then show ?case by simp
next
  case (Cons t ts)
  then show ?case
    by (cases "apply_template p r t content") (simp_all add: foldl_raised)
qed

lemma rewrite_files_dry_stdout:
  "rewrite_files p r table True w = (Inr u, w') \<Longrightarrow>
   stdout w' = stdout w @ concat (map (dry_run_report p r w) table)
   \<and> (\<forall>e \<in> set table. \<exists>content content'.
         read_text (fst e) w = Inr content
         \<and> apply_templates p r (snd e) content = Inr content'
         \<and> dry_run_report p r w e = file_banner (fst e) @ [NL] @ content' @ [NL])"
proof (induction table arbitrary: w)
  case Nil
  then show ?case by simp
next
  case (Cons e table)
  obtain path ts where e: "e = (path, ts)" by (cases e)
  from Cons.prems obtain content where c: "read_text path w = Inr content"
    by (auto simp: e split: sum.splits)
  from Cons.prems c obtain content' where c': "apply_templates p r ts content = Inr content'"
    by (auto simp: e split: sum.splits)
  let ?w1 = "print content' (print (file_banner path) w)"
  have rest: "rewrite_files p r table True ?w1 = (Inr u, w')"
    using Cons.prems c c' by (simp add: e)
  have f1: "files ?w1 = files w" by (simp add: files_print)
  have rep: "dry_run_report p r w e = file_banner path @ [NL] @ content' @ [NL]"
    using c c' by (simp add: dry_run_report_def e)
  have ih: "stdout w' = stdout ?w1 @ concat (map (dry_run_report p r ?w1) table)
   \<and> (\<forall>e \<in> set table. \<exists>content content'.
         read_text (fst e) ?w1 = Inr content
         \<and> apply_templates p r (snd e) content = Inr content'
         \<and> dry_run_report p r ?w1 e = file_banner (fst e) @ [NL] @ content' @ [NL])"
    using Cons.IH [OF rest] .
  have m: "map (dry_run_report p r ?w1) table = map (dry_run_report p r w) table"
    using dry_run_report_cong [OF f1] by simp
  have "stdout w' = stdout w @ concat (map (dry_run_report p r w) (e # table))"
    using ih m rep by (simp add: stdout_print)
  moreover have "\<forall>e \<in> set (e # table). \<exists>content content'.
         read_text (fst e) w = Inr content
         \<and> apply_templates p r (snd e) content = Inr content'
         \<and> dry_run_report p r w e = file_banner (fst e) @ [NL] @ content' @ [NL]"
    using ih read_text_cong [OF f1] dry_run_report_cong [OF f1] c c' rep e by auto
  ultimately show ?case by blast
qed

lemma patch_changelog_dry_files:
  "files (snd (patch_changelog nv True today w)) = files w"
proof (cases "read_text ''CHANGES.rst'' w")
  case (Inl e)
  then show ?thesis by (simp add: patch_changelog_def)
next
  case (Inr content)
  then show ?thesis
    by (cases "str_index content before_unreleased")
       (simp_all add: patch_changelog_def Let_def files_print)
qed

lemma bump_version_dry_files:
  "files (snd (bump_version True im imn table api today w)) = files w"
proof (cases "get_replacements im imn api w")
  case (Inl e)
  then show ?thesis by (simp add: bump_version_def)
next
  case (Inr x)
  obtain p r nv where x: "x = (p, r, nv)" by (cases x)
  obtain res w1 where rw: "rewrite_files p r table True w = (res, w1)"
    by (cases "rewrite_files p r table True w")
  have f1: "files w1 = files w" using rewrite_files_dry [OF rw] .
  show ?thesis
    using Inr x rw f1 patch_changelog_dry_files [of nv today w1]
    by (cases res) (simp_all add: bump_version_def)
qed

lemma bump_version_dry_output:
  assumes "bump_version True increment_major increment_minor table api today w = (Inr u, w')"
  shows "\<exists>patterns replacements new_version printed changelog p q.
        get_replacements increment_major increment_minor api w
          = Inr (patterns, replacements, new_version)
        \<and> (\<forall>e \<in> set table. \<exists>content content'.
              read_text (fst e) w = Inr content
              \<and> foldl (\<lambda>r t. case r of Inl err \<Rightarrow> Inl err
                               | Inr c \<Rightarrow> apply_template patterns replacements t c)
                     (Inr content) (snd e) = Inr content'
              \<and> printed e = [NL] @ ''######## '' @ fst e @ '' ########'' @ [NL, NL]
                    @ content' @ [NL])
        \<and> read_text ''CHANGES.rst'' w = Inr changelog
        \<and> changelog = p @ ''These features will be included in the next release:'' @ [NL, NL] @ q
        \<and> (\<forall>p' q'. changelog = p' @ ''These features will be included in the next release:'' @ [NL, NL] @ q'
               \<longrightarrow> length p \<le> length p')
        \<and> stdout w' = stdout w @ concat (map printed table)
             @ ''######## CHANGES.rst ########'' @ [NL]
             @ take 200
                 (p @ ''These features will be included in the next release:'' @ [NL, NL]
                  @ ''Added'' @ [NL] @ ''-----'' @ [NL, NL] @ ''Fixed'' @ [NL] @ ''-----'' @ [NL, NL, NL]
                  @ str_version new_version @ ''_ - '' @ str_date today @ [NL]
                  @ replicate (length (str_version new_version @ ''_ - '' @ str_date today)) CHR ''='' @ [NL, NL]
                  @ q)
             @ [NL]"
proof -
  from assms obtain x where x: "get_replacements increment_major increment_minor api w = Inr x"
    by (cases "get_replacements increment_major increment_minor api w")
       (auto simp: bump_version_def)
  obtain pt r nv where xx: "x = (pt, r, nv)" by (cases x)
  obtain res w1 where rw: "rewrite_files pt r table True w = (res, w1)"
    by (cases "rewrite_files pt r table True w")
  from assms x xx rw obtain u1 where res: "res = Inr u1"
    by (cases res) (auto simp: bump_version_def)
  have pc: "patch_changelog nv True today w1 = (Inr u, w')"
    using assms x xx rw res by (simp add: bump_version_def)
  have f1: "files w1 = files w"
    using rewrite_files_dry [OF rw] .
  note out = rewrite_files_dry_stdout [OF rw [unfolded res]]
  have entries: "\<forall>e \<in> set table. \<exists>content content'.
              read_text (fst e) w = Inr content
              \<and> foldl (\<lambda>r' t. case r' of Inl err \<Rightarrow> Inl err
                               | Inr c \<Rightarrow> apply_template pt r t c)
                     (Inr content) (snd e) = Inr content'
              \<and> dry_run_report pt r w e = [NL] @ ''######## '' @ fst e @ '' ########'' @ [NL, NL]
                    @ content' @ [NL]"
    using out by (simp add: apply_templates_foldl file_banner_def)
  from pc obtain content where c: "read_text ''CHANGES.rst'' w1 = Inr content"
    by (cases "read_text ''CHANGES.rst'' w1") (auto simp: patch_changelog_def)
  have "\<exists>p q. content = p @ before_unreleased @ q"
  proof (rule ccontr)
    assume "\<not> ?thesis"
    from patch_changelog_absent [OF c this, of nv True today] pc show False by simp
  qed
  from patch_changelog_outcome [OF c this, of nv today] obtain p q where
    pq: "content = p @ before_unreleased @ q"
    and least: "\<forall>p' q'. content = p' @ before_unreleased @ q' \<longrightarrow> length p \<le> length p'"
    and dry: "stdout (snd (patch_changelog nv True today w1))
           = stdout w1 @ ''######## CHANGES.rst ########'' @ [NL]
             @ take 200
                 (p @ before_unreleased @ unreleased_section (changelog_title nv today) @ q)
             @ [NL]"
    by blast
  have so: "stdout w' = stdout w @ concat (map (dry_run_report pt r w) table)
             @ ''######## CHANGES.rst ########'' @ [NL]
             @ take 200
                 (p @ before_unreleased @ unreleased_section (changelog_title nv today) @ q)
             @ [NL]"
    using dry pc out by simp
  have cw: "read_text ''CHANGES.rst'' w = Inr content"
    using c read_text_cong [OF f1] by simp
  show ?thesis
    using x xx entries cw pq least so
    unfolding before_unreleased_def unreleased_section_def changelog_title_def
    by (simp only: append_assoc) blast
qed

text \<open>
  Claim C8. In a dry run no file is modified, whatever the outcome. When the run
  succeeds, the text it has printed is, for each entry of the pattern table in
  turn, an empty line, the line \<^verbatim>\<open>######## path ########\<close>, an empty line and
  the content of the file after the substitutions of all its templates, each
  applied to the result of the one before, followed by a newline; and then the line
  \<^verbatim>\<open>######## CHANGES.rst ########\<close> and the first 200 characters of the changelog
  with the new section after the first occurrence of the anchor, followed by a
  newline.
\<close>

theorem bump_version_dry_run:
  "files (snd (bump_version True increment_major increment_minor table api today w)) = files w
   \<and> (bump_version True increment_major increment_minor table api today w = (Inr (), w') \<longrightarrow>
       (\<exists>patterns replacements new_version printed changelog p q.
        get_replacements increment_major increment_minor api w
          = Inr (patterns, replacements, new_version)
        \<and> (\<forall>e \<in> set table. \<exists>content content'.
              read_text (fst e) w = Inr content
              \<and> foldl (\<lambda>r t. case r of Inl err \<Rightarrow> Inl err
                               | Inr c \<Rightarrow> apply_template patterns replacements t c)
                     (Inr content) (snd e) = Inr content'
              \<and> printed e = [NL] @ ''######## '' @ fst e @ '' ########'' @ [NL, NL]
                    @ content' @ [NL])
        \<and> read_text ''CHANGES.rst'' w = Inr changelog
        \<and> changelog = p @ ''These features will be included in the next release:'' @ [NL, NL] @ q
        \<and> (\<forall>p' q'. changelog = p' @ ''These features will be included in the next release:'' @ [NL, NL] @ q'
               \<longrightarrow> length p \<le> length p')
        \<and> stdout w' = stdout w @ concat (map printed table)
             @ ''######## CHANGES.rst ########'' @ [NL]
             @ take 200
                 (p @ ''These features will be included in the next release:'' @ [NL, NL]
                  @ ''Added'' @ [NL] @ ''-----'' @ [NL, NL] @ ''Fixed'' @ [NL] @ ''-----'' @ [NL, NL, NL]
                  @ str_version new_version @ ''_ - '' @ str_date today @ [NL]
                  @ replicate (length (str_version new_version @ ''_ - '' @ str_date today)) CHR ''='' @ [NL, NL]
                  @ q)
             @ [NL]))"
  using bump_version_dry_files [of increment_major increment_minor table api today w]
    bump_version_dry_output [of increment_major increment_minor table api today w "()" w']
  by blast

lemma example_dry_run_succeeds:
  "fst (bump_version True False True readme_table example_api example_date readme_repo) = Inr ()"
  by code_simp

lemma example_dry_run_stdout:
  "stdout (snd (bump_version True False True readme_table example_api example_date readme_repo))
     = [NL] @ ''######## src/darker/version.py ########'' @ [NL, NL]
       @ ''__version__ = '' @ [DQ] @ ''1.3.0'' @ [DQ, NL, NL]
       @ [NL] @ ''######## README.rst ########'' @ [NL, NL]
       @ ''       rev: 1.3.0'' @ [NL] @ ''label=release%201.4.0'' @ [NL, NL]
       @ ''######## CHANGES.rst ########'' @ [NL]
       @ ''Unreleased_'' @ [NL]
       @ ''These features will be included in the next release:'' @ [NL, NL]
       @ ''Added'' @ [NL] @ ''-----'' @ [NL, NL] @ ''Fixed'' @ [NL] @ ''-----'' @ [NL, NL, NL]
       @ ''1.3.0_ - 2021-03-07'' @ [NL] @ ''==================='' @ [NL, NL]
       @ [NL]"
  by code_simp

theorem bump_version_dry_run_witness:
  "fst (bump_version True False True readme_table example_api example_date readme_repo)
     = Inr ()
   \<and> files (snd (bump_version True False True readme_table example_api example_date
        readme_repo)) = files readme_repo
   \<and> (\<exists>patterns replacements new_version changelog.
        get_replacements False True example_api readme_repo
          = Inr (patterns, replacements, new_version)
        \<and> read_text ''CHANGES.rst'' readme_repo = Inr changelog)
   \<and> stdout (snd (bump_version True False True readme_table example_api example_date
        readme_repo))
     = [NL] @ ''######## src/darker/version.py ########'' @ [NL, NL]
       @ ''__version__ = '' @ [DQ] @ ''1.3.0'' @ [DQ, NL, NL]
       @ [NL] @ ''######## README.rst ########'' @ [NL, NL]
       @ ''       rev: 1.3.0'' @ [NL] @ ''label=release%201.4.0'' @ [NL, NL]
       @ ''######## CHANGES.rst ########'' @ [NL]
       @ ''Unreleased_'' @ [NL]
       @ ''These features will be included in the next release:'' @ [NL, NL]
       @ ''Added'' @ [NL] @ ''-----'' @ [NL, NL] @ ''Fixed'' @ [NL] @ ''-----'' @ [NL, NL, NL]
       @ ''1.3.0_ - 2021-03-07'' @ [NL] @ ''==================='' @ [NL, NL]
       @ [NL]"
proof -
  let ?b = "bump_version True False True readme_table example_api example_date readme_repo"
  have b: "?b = (Inr (), snd ?b)"
    using example_dry_run_succeeds by (cases ?b) simp
  note t = bump_version_dry_run
    [of False True readme_table example_api example_date readme_repo "snd ?b"]
  have f: "files (snd ?b) = files readme_repo"
    using t by (rule conjunct1)
  have "\<exists>patterns replacements new_version changelog.
        get_replacements False True example_api readme_repo
          = Inr (patterns, replacements, new_version)
        \<and> read_text ''CHANGES.rst'' readme_repo = Inr changelog"
    using conjunct2 [OF t, THEN mp, OF b]
    apply (elim exE conjE)
    apply (intro exI conjI)
     apply assumption
    apply assumption
    done
  then show ?thesis
    using f example_dry_run_succeeds example_dry_run_stdout
    by (simp only: simp_thms)
qed

lemma dict_get_error: "dict_get d k = Inl e \<Longrightarrow> e = KeyError"
  by (induction d) (auto split: if_splits)

lemma dict_get_found:
  "(\<exists>v. dict_get d k = Inr v) = (\<exists>k' \<in> set (dict_keys d). version_eq k' k)"
  by (induction d) (auto simp: dict_keys_def)

lemma dict_get_missing:
  "\<forall>k' \<in> set (dict_keys d). \<not> version_eq k' k \<Longrightarrow> dict_get d k = Inl KeyError"
  by (induction d) (auto simp: dict_keys_def)

lemma get_replacements_needs_key:
  assumes "get_replacements im imn api w = Inr res"
  shows "\<exists>old new ms. get_current_version w = Inr old
      \<and> get_next_version old im imn = Inr new
      \<and> get_milestone_numbers api = Inr ms
      \<and> (\<exists>k \<in> set (dict_keys ms). version_eq k new)"
proof -
  from assms obtain old where o: "get_current_version w = Inr old"
    by (cases "get_current_version w") (auto simp: get_replacements_def)
  from assms o obtain new where n: "get_next_version old im imn = Inr new"
    by (cases "get_next_version old im imn") (auto simp: get_replacements_def)
  from assms o n obtain ms where m: "get_milestone_numbers api = Inr ms"
    by (cases "get_milestone_numbers api") (auto simp: get_replacements_def)
  from assms o n m obtain nx where x: "get_next_milestone_version new ms = Inr nx"
    by (cases "get_next_milestone_version new ms") (auto simp: get_replacements_def)
  from assms o n m x obtain v where "dict_get ms new = Inr v"
    by (cases "dict_get ms new") (auto simp: get_replacements_def)
  then have "\<exists>k \<in> set (dict_keys ms). version_eq k new"
    using dict_get_found by blast
  with o n m show ?thesis by blast
qed

lemma get_replacements_missing_key:
  assumes o: "get_current_version w = Inr old"
    and n: "get_next_version old im imn = Inr new"
    and m: "get_milestone_numbers api = Inr ms"
    and k: "\<forall>k \<in> set (dict_keys ms). \<not> version_eq k new"
  shows "get_replacements im imn api w =
      Inl (if (\<exists>k \<in> set (dict_keys ms). version_gt k new) then KeyError else RuntimeError)"
proof (cases "get_next_milestone_version new ms")
  case (Inl e)
  from next_milestone_error [OF Inl] have "e = RuntimeError"
    and "\<forall>k\<in>set (dict_keys ms). \<not> version_gt k new" by auto
  with Inl o n m show ?thesis by (simp add: get_replacements_def)
next
  case (Inr nx)
  from next_milestone_least [OF Inr] have "\<exists>k \<in> set (dict_keys ms). version_gt k new"
    by (auto simp: is_least_later_def)
  with Inr o n m dict_get_missing [OF k] show ?thesis
    by (simp add: get_replacements_def)
qed

text \<open>
  Claim C9 (amended). \<open>get_replacements\<close> succeeds only when a key of the milestone
  dictionary equals the new version. When the current version was read, the new
  version computed and the milestones fetched, and no key equals the new version,
  it fails and \<open>bump_version\<close> leaves the world as it was: with \<open>KeyError\<close> from the
  lookup of the new version's milestone number if some milestone is later than the
  new version, and otherwise with the \<open>RuntimeError\<close> of \<open>get_next_milestone_version\<close>,
  which runs before the lookup.
\<close>

theorem get_replacements_missing_milestone:
  "(get_replacements increment_major increment_minor api w = Inr res \<longrightarrow>
      (\<exists>old new ms. get_current_version w = Inr old
        \<and> get_next_version old increment_major increment_minor = Inr new
        \<and> get_milestone_numbers api = Inr ms
        \<and> (\<exists>k \<in> set (dict_keys ms). version_eq k new)))
   \<and> (get_current_version w = Inr old
        \<and> get_next_version old increment_major increment_minor = Inr new
        \<and> get_milestone_numbers api = Inr ms
        \<and> (\<forall>k \<in> set (dict_keys ms). \<not> version_eq k new) \<longrightarrow>
      get_replacements increment_major increment_minor api w =
        Inl (if (\<exists>k \<in> set (dict_keys ms). version_gt k new) then KeyError
             else RuntimeError)
      \<and> bump_version dry_run increment_major increment_minor table api today w =
        (Inl (if (\<exists>k \<in> set (dict_keys ms). version_gt k new) then KeyError
              else RuntimeError), w))"
proof (rule conjI)
  show "get_replacements increment_major increment_minor api w = Inr res \<longrightarrow>
      (\<exists>old new ms. get_current_version w = Inr old
        \<and> get_next_version old increment_major increment_minor = Inr new
        \<and> get_milestone_numbers api = Inr ms
        \<and> (\<exists>k \<in> set (dict_keys ms). version_eq k new))"
    using get_replacements_needs_key by blast
next
  show "get_current_version w = Inr old
        \<and> get_next_version old increment_major increment_minor = Inr new
        \<and> get_milestone_numbers api = Inr ms
        \<and> (\<forall>k \<in> set (dict_keys ms). \<not> version_eq k new) \<longrightarrow>
      get_replacements increment_major increment_minor api w =
        Inl (if (\<exists>k \<in> set (dict_keys ms). version_gt k new) then KeyError
             else RuntimeError)
      \<and> bump_version dry_run increment_major increment_minor table api today w =
        (Inl (if (\<exists>k \<in> set (dict_keys ms). version_gt k new) then KeyError
              else RuntimeError), w)"
  proof (rule impI)
    assume a: "get_current_version w = Inr old
        \<and> get_next_version old increment_major increment_minor = Inr new
        \<and> get_milestone_numbers api = Inr ms
        \<and> (\<forall>k \<in> set (dict_keys ms). \<not> version_eq k new)"
    then have g: "get_replacements increment_major increment_minor api w =
        Inl (if (\<exists>k \<in> set (dict_keys ms). version_gt k new) then KeyError
             else RuntimeError)"
      using get_replacements_missing_key by blast
    then show "get_replacements increment_major increment_minor api w =
        Inl (if (\<exists>k \<in> set (dict_keys ms). version_gt k new) then KeyError
             else RuntimeError)
      \<and> bump_version dry_run increment_major increment_minor table api today w =
        (Inl (if (\<exists>k \<in> set (dict_keys ms). version_gt k new) then KeyError
              else RuntimeError), w)"
      by (simp add: bump_version_def)
  qed
qed

lemma example_current: "get_current_version example_repo = Inr (final_release 1 2 3)"
  by code_simp

lemma example_old_milestones:
  "get_milestone_numbers old_milestones = Inr [(final_release 1 2 0, ''13'')]"
  by code_simp

lemma example_later_milestones:
  "get_milestone_numbers later_milestones = Inr [(final_release 1 4 0, ''15'')]"
  by code_simp

text \<open>
  Claim C9 (counterexample). The repository is at \<^verbatim>\<open>1.2.3\<close>, the minor version is
  incremented to \<^verbatim>\<open>1.3.0\<close>, and the only milestone is \<^verbatim>\<open>1.2.0\<close>: no milestone title
  parses to the new version, and the failure is \<open>RuntimeError\<close>, not \<open>KeyError\<close>.
\<close>

theorem get_replacements_runtime_error_first:
  "get_current_version example_repo = Inr (final_release 1 2 3)
   \<and> get_next_version (final_release 1 2 3) False True = Inr (final_release 1 3 0)
   \<and> get_milestone_numbers old_milestones = Inr [(final_release 1 2 0, ''13'')]
   \<and> \<not> version_eq (final_release 1 2 0) (final_release 1 3 0)
   \<and> get_replacements False True old_milestones example_repo = Inl RuntimeError"
proof -
  have "get_next_version (final_release 1 2 3) False True = Inr (final_release 1 3 0)"
    using get_next_version_three [of "final_release 1 2 3" 1 2 3 False True]
    by (simp add: final_release_def)
  moreover have "\<not> version_eq (final_release 1 2 0) (final_release 1 3 0)"
    by code_simp
  moreover have "get_replacements False True old_milestones example_repo = Inl RuntimeError"
    by code_simp
  ultimately show ?thesis
    using example_current example_old_milestones by blast
qed

theorem get_replacements_missing_milestone_witness:
  "get_replacements False True later_milestones example_repo = Inl KeyError
   \<and> bump_version False False True example_table later_milestones example_date example_repo
       = (Inl KeyError, example_repo)
   \<and> bump_version False False True example_table old_milestones example_date example_repo
       = (Inl RuntimeError, example_repo)"
proof -
  have n: "get_next_version (final_release 1 2 3) False True = Inr (final_release 1 3 0)"
    using get_next_version_three [of "final_release 1 2 3" 1 2 3 False True]
    by (simp add: final_release_def)
  have k1: "\<forall>k \<in> set (dict_keys [(final_release 1 4 0, ''15'')]).
      \<not> version_eq k (final_release 1 3 0)"
    by code_simp
  have g1: "\<exists>k \<in> set (dict_keys [(final_release 1 4 0, ''15'')]).
      version_gt k (final_release 1 3 0)"
    by code_simp
  have k2: "\<forall>k \<in> set (dict_keys [(final_release 1 2 0, ''13'')]).
      \<not> version_eq k (final_release 1 3 0)"
    by code_simp
  have g2: "\<not> (\<exists>k \<in> set (dict_keys [(final_release 1 2 0, ''13'')]).
      version_gt k (final_release 1 3 0))"
    by code_simp
  show ?thesis
    using get_replacements_missing_milestone [of False True later_milestones example_repo "([], [], final_release 0 0 0)" "final_release 1 2 3"
        "final_release 1 3 0" "[(final_release 1 4 0, ''15'')]" False example_table example_date]
      get_replacements_missing_milestone [of False True old_milestones example_repo "([], [], final_release 0 0 0)" "final_release 1 2 3"
        "final_release 1 3 0" "[(final_release 1 2 0, ''13'')]" False example_table example_date]
      example_current n example_later_milestones example_old_milestones k1 g1 k2 g2
    by (simp only: if_True if_False simp_thms)
qed

section \<open>Properties of the matcher and of a substitution\<close>

lemma run_le: "p + run a s p \<le> length s \<or> length s < p"
  using length_takeWhile_le [of "atom_ok a" "drop p s"] by (auto simp: run_def)

lemma run_bound: "p \<le> length s \<Longrightarrow> k \<le> run a s p \<Longrightarrow> p + k \<le> length s"
  using run_le [of p a s] by auto

lemma state_ok_advance:
  assumes "state_ok s b (p, g)" "p \<le> q" "q \<le> length s"
  shows "state_ok s b (q, g)"
  unfolding state_ok_def
proof (intro conjI allI impI)
  show "b \<le> fst (q, g)" using assms by (simp add: state_ok_def)
  show "fst (q, g) \<le> length s" using assms by simp
next
  fix i x y assume "snd (q, g) i = Some (x, y)"
  then have "g i = Some (x, y)" by simp
  with assms(1) have "b \<le> x \<and> x \<le> y \<and> y \<le> p" by (simp add: state_ok_def)
  with assms(2) show "b \<le> x" "x \<le> y" "y \<le> fst (q, g)" by auto
qed

lemma state_ok_group:
  assumes "state_ok s b (p, g)" "state_ok s b (q, g0)" "p \<le> q"
  shows "state_ok s b (q, g0(i \<mapsto> (p, q)))"
  unfolding state_ok_def
proof (intro conjI allI impI)
  show "b \<le> fst (q, g0(i \<mapsto> (p, q)))" using assms(2) by (simp add: state_ok_def)
  show "fst (q, g0(i \<mapsto> (p, q))) \<le> length s" using assms(2) by (simp add: state_ok_def)
next
  fix j x y assume a: "snd (q, g0(i \<mapsto> (p, q))) j = Some (x, y)"
  have bp: "b \<le> p" using assms(1) by (simp add: state_ok_def)
  have "b \<le> x \<and> x \<le> y \<and> y \<le> q"
  proof (cases "j = i")
    case True
    with a bp assms(3) show ?thesis by simp
  next
    case False
    with a have "g0 j = Some (x, y)" by simp
    with assms(2) show ?thesis by (simp add: state_ok_def)
  qed
  then show "b \<le> x" "x \<le> y" "y \<le> fst (q, g0(i \<mapsto> (p, q)))" by auto
qed

lemma state_ok_pos: "state_ok s b (p, g) \<Longrightarrow> p \<le> length s"
  by (simp add: state_ok_def)

lemma m_state_ok:
  "state_ok s b st \<Longrightarrow> x \<in> set (m_node s n st) \<Longrightarrow> state_ok s b x \<and> fst st \<le> fst x"
  "state_ok s b st' \<Longrightarrow> x \<in> set (m_seq s ns st') \<Longrightarrow> state_ok s b x \<and> fst st' \<le> fst x"
proof (induction s n st and s ns st' arbitrary: x and x rule: m_node_m_seq.induct)
  case (1 s a p g)
  then show ?case using state_ok_advance [of s b p g "Suc p"] by (auto split: if_splits)
next
  case (2 s a p g)
  then show ?case
    using run_bound [of p s _ a] state_ok_advance [of s b p g] state_ok_pos [of s b p g]
    by auto
next
  case (3 s a p g)
  then show ?case
    using run_bound [of p s _ a] state_ok_advance [of s b p g] state_ok_pos [of s b p g]
    by auto
next
  case (4 s a p g)
  then show ?case using state_ok_advance [of s b p g "Suc p"] by (auto split: if_splits)
next
  case (5 s p g)
  then show ?case by (auto split: if_splits)
next
  case (6 s p g)
  then show ?case by (auto split: if_splits)
next
  case (7 s i ns p g)
  from "7.prems"(2) obtain q g0 where m: "(q, g0) \<in> set (m_seq s ns (p, g))"
    and x: "x = (q, g0(i \<mapsto> (p, q)))"
    by auto
  from "7.IH" [OF "7.prems"(1) m] have ok: "state_ok s b (q, g0)" and le: "p \<le> q"
    by auto
  show ?case
    using state_ok_group [OF "7.prems"(1) ok le] le by (simp add: x)
next
  case (8 s st)
  then show ?case by simp
next
  case (9 s n ns st)
  from "9.prems"(2) obtain mid where mid: "mid \<in> set (m_node s n st)"
    and x: "x \<in> set (m_seq s ns mid)"
    by auto
  from "9.IH"(1) [OF "9.prems"(1) mid] have "state_ok s b mid" "fst st \<le> fst mid" by auto
  with "9.IH"(2) [OF mid _ x] show ?case by auto
qed

lemma m_sets_groups:
  "x \<in> set (m_node s n st) \<Longrightarrow> node_ids n \<subseteq> dom (snd x) \<and> dom (snd st) \<subseteq> dom (snd x)"
  "x \<in> set (m_seq s ns st') \<Longrightarrow> seq_ids ns \<subseteq> dom (snd x) \<and> dom (snd st') \<subseteq> dom (snd x)"
proof (induction s n st and s ns st' arbitrary: x and x rule: m_node_m_seq.induct)
  case (7 s i ns p g)
  from "7.prems" obtain q g0 where m: "(q, g0) \<in> set (m_seq s ns (p, g))"
    and x: "x = (q, g0(i \<mapsto> (p, q)))"
    by auto
  from "7.IH" [OF m] show ?case by (auto simp: x)
next
  case (9 s n ns st)
  from "9.prems" obtain mid where mid: "mid \<in> set (m_node s n st)"
    and x: "x \<in> set (m_seq s ns mid)"
    by auto
  from "9.IH"(1) [OF mid] "9.IH"(2) [OF mid x] show ?case
    unfolding seq_ids.simps by blast
qed (auto split: if_splits)

lemma seq_ids_append: "seq_ids (xs @ ys) = seq_ids xs \<union> seq_ids ys"
  by (induction xs) auto

lemma seq_ids_rev: "seq_ids (rev xs) = seq_ids xs"
  by (induction xs) (auto simp: seq_ids_append)

lemma stack_ids_Cons: "stack_ids ((i, outer) # st) = insert i (seq_ids outer) \<union> stack_ids st"
  by (simp add: stack_ids_def)

lemma stack_ids_Nil: "stack_ids [] = {}"
  by (simp add: stack_ids_def)


lemma build_ids:
  "build ts cur st n = Inr (ns, n') \<Longrightarrow>
   n \<le> n' \<and> {Suc n..n'} \<union> seq_ids cur \<union> stack_ids st \<subseteq> seq_ids ns"
proof (induction ts cur st n rule: build.induct)
  case (1 cur n)
  then show ?case by (auto simp: seq_ids_rev stack_ids_Nil)
next
  case (2 cur f fs n)
  then show ?case by simp
next
  case (3 a ts cur st n)
  then show ?case
    by (auto split: list.splits option.splits if_splits)
next
  case (4 ts cur st n)
  then show ?case
    by (fastforce simp: stack_ids_Cons)
next
  case (5 ts cur st n)
  then show ?case
    by (auto simp: stack_ids_Cons stack_ids_Nil seq_ids_rev split: list.splits prod.splits)
qed (auto split: if_splits)

lemma compile_groups:
  "re_compile pat = Inr r \<Longrightarrow> {1..groups r} \<subseteq> seq_ids (nodes r)"
proof -
  assume a: "re_compile pat = Inr r"
  then obtain ts where ts: "lex Top pat = Inr ts"
    by (cases "lex Top pat") (auto simp: re_compile_def)
  with a obtain ns n where b: "build ts [] [] 0 = Inr (ns, n)" and r: "r = \<lparr>nodes = ns, groups = n\<rparr>"
    by (cases "build ts [] [] 0") (auto simp: re_compile_def)
  from build_ids [OF b] show ?thesis by (auto simp: r)
qed

lemma search_from_Some:
  "search_from r s is = Some m \<Longrightarrow>
   m_start m \<in> set is
   \<and> (m_end m, m_spans m) \<in> set (m_seq s (nodes r) (m_start m, Map.empty))
   \<and> m_groups m = groups r \<and> m_string m = s"
proof (induction "is")
  case Nil
  then show ?case by simp
next
  case (Cons i "is")
  show ?case
  proof (cases "m_seq s (nodes r) (i, Map.empty)")
    case Nil
    with Cons show ?thesis by simp
  next
    case (Cons x xs)
    obtain e g where x: "x = (e, g)" by (cases x)
    have "(e, g) \<in> set (m_seq s (nodes r) (i, Map.empty))"
      using Cons x by simp
    with Cons.prems Cons x show ?thesis by auto
  qed
qed

lemma state_ok_start: "i \<le> length s \<Longrightarrow> state_ok s i (i, Map.empty)"
  by (simp add: state_ok_def)

lemma regex_search_Some:
  assumes "regex_search r s = Some m"
  shows "(m_end m, m_spans m) \<in> set (m_seq s (nodes r) (m_start m, Map.empty))"
    and "m_start m \<le> m_end m" and "m_end m \<le> length s"
    and "m_groups m = groups r" and "m_string m = s"
    and "\<And>i x y. m_spans m i = Some (x, y) \<Longrightarrow> m_start m \<le> x \<and> x \<le> y \<and> y \<le> m_end m"
    and "seq_ids (nodes r) \<subseteq> dom (m_spans m)"
proof -
  note sf = search_from_Some [OF assms [unfolded regex_search_def]]
  show mem: "(m_end m, m_spans m) \<in> set (m_seq s (nodes r) (m_start m, Map.empty))"
    using sf by simp
  have st: "m_start m \<le> length s" using sf by auto
  note ok = m_state_ok(2) [OF state_ok_start [OF st] mem]
  show "m_start m \<le> m_end m" "m_end m \<le> length s"
    using ok by (auto simp: state_ok_def)
  show "m_groups m = groups r" "m_string m = s" using sf by auto
  show "\<And>i x y. m_spans m i = Some (x, y) \<Longrightarrow> m_start m \<le> x \<and> x \<le> y \<and> y \<le> m_end m"
    using ok by (auto simp: state_ok_def)
  show "seq_ids (nodes r) \<subseteq> dom (m_spans m)"
    using m_sets_groups(2) [OF mem] by simp
qed

lemma group_span:
  assumes "re_search pat s = Inr (Some m)" and "span m i = Inr sp" and "0 < i"
  shows "\<exists>a b. m_spans m i = Some (a, b) \<and> sp = (int a, int b)
      \<and> m_start m \<le> a \<and> a \<le> b \<and> b \<le> m_end m \<and> m_end m \<le> length s"
proof -
  from assms(1) obtain r where r: "re_compile pat = Inr r" and s: "regex_search r s = Some m"
    by (cases "re_compile pat") (auto simp: re_search_def)
  note rs = regex_search_Some [OF s]
  have "i \<le> groups r"
    using assms(2,3) rs(4) by (auto simp: span_def split: if_splits)
  then have "i \<in> {1..groups r}"
    using assms(3) by simp
  then have "i \<in> dom (m_spans m)"
    using compile_groups [OF r] rs(7) by blast
  then obtain a b where ab: "m_spans m i = Some (a, b)" by auto
  have "sp = (int a, int b)"
    using assms(2,3) ab by (auto simp: span_def split: if_splits)
  with ab rs(6) [OF ab] rs(3) show ?thesis by auto
qed




















lemma example_in_set:
  "apply_template [(''x'', ''b'')] [(''y'', ''Z'')] ''[{x->y}]'' ''b'' = Inl IndexError"
  by code_simp






end
